theory Spec2Isabelle
  imports Complex_Main "HOL-Library.List_Lexorder" "HOL-Library.Char_ord"
begin

section \<open>Numeric helpers shared by both services\<close>

text \<open>
  Python floats are idealised as reals: every arithmetic operation is exact. The
  numpy reductions used by the services are the arithmetic mean and the population
  standard deviation (\<open>np.std\<close> with its default \<open>ddof = 0\<close>).
\<close>

definition np_mean :: "real list \<Rightarrow> real" where
  "np_mean xs = sum_list xs / real (length xs)"

definition np_std :: "real list \<Rightarrow> real" where
  "np_std xs = sqrt (np_mean (map (\<lambda>x. (x - np_mean xs)\<^sup>2) xs))"

text \<open>
  \<open>round(x, nd)\<close>: round to \<open>nd\<close> decimals, ties to the even neighbour.
\<close>

definition round_half_even :: "real \<Rightarrow> int" where
  "round_half_even y =
     (let f = \<lfloor>y\<rfloor>; d = y - of_int f
      in if d < 1/2 then f
         else if 1/2 < d then f + 1
         else if even f then f else f + 1)"

definition py_round :: "real \<Rightarrow> nat \<Rightarrow> real" where
  "py_round x nd = of_int (round_half_even (x * 10 ^ nd)) / 10 ^ nd"

section \<open>Demand service: trend classification\<close>

text \<open>
  Lines 196--209 of \<open>demand_service.py\<close>: \<open>mid = len(demands) // 2\<close>, the two
  halves are \<open>demands[:mid]\<close> and \<open>demands[mid:]\<close>.
\<close>

definition classify_trend :: "real list \<Rightarrow> string" where
  "classify_trend demands =
     (let mid = length demands div 2
      in if mid > 0 then
           (let first_half_avg = np_mean (take mid demands);
                second_half_avg = np_mean (drop mid demands)
            in if second_half_avg > first_half_avg * (11/10) then ''increasing''
               else if second_half_avg < first_half_avg * (9/10) then ''decreasing''
               else ''stable'')
         else ''insufficient_data'')"

section \<open>Demand service: the iterative forecaster\<close>

datatype py_error = AttributeError | OverflowError | ValueError | IndexError

record weekly_record =
  parent_asin :: string
  year_week :: string
  wk_demand :: int
  avg_rating :: "real option"

record forecast_point =
  week :: string
  demand :: real
  is_forecast :: bool

record features =
  lag_1 :: real
  lag_2 :: real
  lag_4 :: real
  rolling_mean_4 :: real
  rolling_std_4 :: real

text \<open>
  The single-step regression model is an external artifact. It is a parameter of the
  model: a function from the feature row to the prediction, \<open>None\<close> when
  \<open>predict\<close> (or the column selection before it) raises inside the \<open>try\<close>.
\<close>

type_synonym regressor = "features \<Rightarrow> real option"

record model_info =
  mi_model_type :: "string option"
  mi_mae :: "real option"

record demand_service =
  weekly_demand :: "weekly_record list option"
  metadata :: "string \<rightharpoonup> string"
  forecast_model :: "regressor option"
  forecast_info :: "model_info option"

record forecast_result =
  r_asin :: string
  r_title :: string
  r_model_type :: string
  r_model_mae :: real
  r_forecast_weeks :: int
  r_historical :: "forecast_point list"
  r_forecast :: "forecast_point list"
  r_combined :: "forecast_point list"

record fstate =
  historical :: "real list"
  forecasts :: "forecast_point list"

fun show_nat :: "nat \<Rightarrow> string" where
  "show_nat n =
     (if n < 10 then [''0123456789'' ! n]
      else show_nat (n div 10) @ [''0123456789'' ! (n mod 10)])"

declare show_nat.simps [simp del]

definition is_ready :: "demand_service \<Rightarrow> bool" where
  "is_ready svc = (weekly_demand svc \<noteq> None)"

text \<open>
  \<open>weekly_demand.filter(parent_asin == asin).sort('year_week')\<close>. The week keys of one
  product are distinct (the table is grouped by product and week), so the later
  \<open>df.sort_values('year_week')\<close> changes nothing.
\<close>

definition product_rows :: "weekly_record list \<Rightarrow> string \<Rightarrow> weekly_record list" where
  "product_rows wd asin = sort_key year_week (filter (\<lambda>r. parent_asin r = asin) wd)"

text \<open>
  \<open>get_product_demand\<close> (lines 169--220): the time series of one product with its
  summary and trend label, \<open>None\<close> when the service is not loaded or the product has
  no weekly record. \<open>int(x)\<close> truncates towards zero.
\<close>

record series_point =
  sp_week :: string
  sp_demand :: real
  sp_rating :: "real option"

record demand_report =
  dr_asin :: string
  dr_title :: string
  dr_total_demand :: int
  dr_avg_demand :: real
  dr_max_demand :: int
  dr_min_demand :: int
  dr_trend :: string
  dr_time_series :: "series_point list"

definition py_int :: "real \<Rightarrow> int" where
  "py_int x = (if 0 \<le> x then \<lfloor>x\<rfloor> else \<lceil>x\<rceil>)"

definition get_product_demand :: "demand_service \<Rightarrow> string \<Rightarrow> demand_report option" where
  "get_product_demand svc asin =
     (case weekly_demand svc of
        None \<Rightarrow> None
      | Some wd \<Rightarrow>
          (let product_data = product_rows wd asin
           in if length product_data = 0 then None
              else
                (let time_series =
                       map (\<lambda>row.
                              \<lparr>sp_week = year_week row,
                               sp_demand = py_round (real_of_int (wk_demand row)) 2,
                               sp_rating =
                                 (case avg_rating row of
                                    None \<Rightarrow> None
                                  | Some x \<Rightarrow> if x = 0 then None else Some (py_round x 2))\<rparr>)
                         product_data;
                     demands = map sp_demand time_series
                 in Some
                      \<lparr>dr_asin = asin,
                       dr_title = (case metadata svc asin of None \<Rightarrow> asin | Some t \<Rightarrow> t),
                       dr_total_demand = py_int (sum_list demands),
                       dr_avg_demand = py_round (np_mean demands) 2,
                       dr_max_demand = py_int (foldl max (hd demands) (tl demands)),
                       dr_min_demand = py_int (foldl min (hd demands) (tl demands)),
                       dr_trend = classify_trend demands,
                       dr_time_series = time_series\<rparr>)))"

text \<open>The statistics computed once before the loop (lines 333--342).\<close>

definition historical_std_of :: "real list \<Rightarrow> real" where
  "historical_std_of h =
     (if 8 \<le> length h then np_std (drop (length h - 8) h) else 2/10)"

definition trend_of :: "real list \<Rightarrow> real" where
  "trend_of h =
     (if 8 \<le> length h
      then np_mean (drop (length h - 4) h)
           - np_mean (drop (length h - 8) (take (length h - 4) h))
      else 0)"

text \<open>
  One prediction (lines 346--408). \<open>fallback\<close> is the \<open>except\<close> branch; it is also
  where an \<open>IndexError\<close> of \<open>forecasts[-1]\<close> would land.
\<close>

definition predict_step ::
  "regressor \<Rightarrow> real \<Rightarrow> real \<Rightarrow> nat \<Rightarrow> real list \<Rightarrow> forecast_point list \<Rightarrow> real" where
  "predict_step model historical_std trend i h fs =
     (if length h < 4 then
        (let avg_demand = (if h \<noteq> [] then np_mean h else 1);
             pred = avg_demand + (real (i mod 3) - 1) * (1/10)
         in max (1/10) pred)
      else
        (let l1 = h ! (length h - 1);
             l2 = h ! (length h - 2);
             l4 = h ! (length h - 4);
             last_4 = drop (length h - 4) h;
             rm4 = np_mean last_4;
             rs4 = np_std last_4;
             rs4 = (if rs4 < 5/100 then max (1/10) (rm4 * (15/100)) else rs4);
             feats = \<lparr>lag_1 = l1, lag_2 = l2, lag_4 = l4,
                      rolling_mean_4 = rm4, rolling_std_4 = rs4\<rparr>;
             fallback =
               max (1/10)
                 (rm4 + historical_std * (3/10) * (if i mod 2 = 0 then 1 else - 1)
                      + trend * (real i + 1) * (1/10))
         in case model feats of
              None \<Rightarrow> fallback
            | Some p \<Rightarrow>
                (let pred = max (1/10) p
                 in if 0 < i then
                      (if fs = [] then fallback
                       else
                         (let last_pred = demand (last fs)
                          in if \<bar>pred - last_pred\<bar> < 15/100 then
                               (let direction = (if i mod 2 = 0 then 1 else - 1);
                                    base_variation = max (historical_std * (1/2)) (2/10);
                                    variation = base_variation * direction
                                                * (1 + real i * (15/100));
                                    trend_component = trend * (real i + 1) * (15/100)
                                in max (1/10) (rm4 + variation + trend_component))
                             else if \<bar>pred - last_pred\<bar> < 5/100 then
                               max (1/10)
                                 (last_pred + (if i mod 2 = 0 then 15/100 else - (15/100)))
                             else pred))
                    else pred)))"

text \<open>
  One iteration of the loop body: predict, emit the rounded point, append the
  full-precision prediction, then trim the buffer to its 20 most recent entries.
\<close>

definition forecast_step :: "regressor \<Rightarrow> real \<Rightarrow> real \<Rightarrow> fstate \<Rightarrow> nat \<Rightarrow> fstate" where
  "forecast_step model historical_std trend st i =
     (let pred = predict_step model historical_std trend i (historical st) (forecasts st);
          forecast_value = py_round pred 2;
          fs = forecasts st @
                 [\<lparr>week = ''Forecast-'' @ show_nat (i + 1), demand = forecast_value,
                   is_forecast = True\<rparr>];
          h = historical st @ [pred];
          h = (if 20 < length h then drop (length h - 20) h else h)
      in \<lparr>historical = h, forecasts = fs\<rparr>)"

text \<open>
  \<open>forecast_run model demands k\<close> is the loop state after \<open>k\<close> iterations, started
  from the full demand series of the product.
\<close>

definition forecast_run :: "regressor \<Rightarrow> real list \<Rightarrow> nat \<Rightarrow> fstate" where
  "forecast_run model demands k =
     foldl (forecast_step model (historical_std_of demands) (trend_of demands))
       \<lparr>historical = demands, forecasts = []\<rparr> [0..<k]"

definition historical_points :: "weekly_record list \<Rightarrow> forecast_point list" where
  "historical_points rows =
     map (\<lambda>r. \<lparr>week = year_week r, demand = py_round (real_of_int (wk_demand r)) 2,
               is_forecast = False\<rparr>)
       (drop (length rows - 12) rows)"

definition generate_forecast ::
  "demand_service \<Rightarrow> string \<Rightarrow> int \<Rightarrow> py_error + forecast_result option" where
  "generate_forecast svc asin weeks =
     (case weekly_demand svc of
        None \<Rightarrow> Inr None
      | Some wd \<Rightarrow>
          (case forecast_model svc of
             None \<Rightarrow> Inr None
           | Some model \<Rightarrow>
               (let rows = product_rows wd asin
                in if length rows < 10 then Inr None
                   else
                     (case forecast_info svc of
                        None \<Rightarrow> Inl AttributeError
                      | Some info \<Rightarrow>
                          (let demands = map (\<lambda>r. real_of_int (wk_demand r)) rows;
                               st = forecast_run model demands (nat weeks);
                               hd = historical_points rows
                           in Inr (Some
                                \<lparr>r_asin = asin,
                                 r_title = (case metadata svc asin of
                                              None \<Rightarrow> asin | Some t \<Rightarrow> t),
                                 r_model_type = (case mi_model_type info of
                                              None \<Rightarrow> ''GradientBoostingRegressor''
                                            | Some t \<Rightarrow> t),
                                 r_model_mae = (case mi_mae info of
                                              None \<Rightarrow> 0 | Some m \<Rightarrow> m),
                                 r_forecast_weeks = weeks,
                                 r_historical = hd,
                                 r_forecast = forecasts st,
                                 r_combined = hd @ forecasts st\<rparr>))))))"

text \<open>The number of weekly records the table holds for a product.\<close>

definition history_weeks :: "demand_service \<Rightarrow> string \<Rightarrow> nat" where
  "history_weeks svc asin =
     (case weekly_demand svc of None \<Rightarrow> 0 | Some wd \<Rightarrow> length (product_rows wd asin))"

subsection \<open>A concrete demand service\<close>

text \<open>
  Product \<open>A\<close> with \<open>k\<close> consecutive weeks of demand 5 and a loaded regression
  model that predicts 4.69 on every feature row.
\<close>

definition demo_weeks :: "string list" where
  "demo_weeks = [''2020-W01'', ''2020-W02'', ''2020-W03'', ''2020-W04'', ''2020-W05'',
                 ''2020-W06'', ''2020-W07'', ''2020-W08'', ''2020-W09'', ''2020-W10'']"

definition demo_rows :: "string \<Rightarrow> nat \<Rightarrow> weekly_record list" where
  "demo_rows a k =
     map (\<lambda>w. \<lparr>parent_asin = a, year_week = w, wk_demand = 5, avg_rating = Some 4\<rparr>)
       (take k demo_weeks)"

definition flat_model :: regressor where
  "flat_model = (\<lambda>_. Some (469/100))"

definition flat_svc :: "nat \<Rightarrow> demand_service" where
  "flat_svc k =
     \<lparr>weekly_demand = Some (demo_rows ''A'' k), metadata = Map.empty,
      forecast_model = Some flat_model,
      forecast_info = Some \<lparr>mi_model_type = None, mi_mae = None\<rparr>\<rparr>"

text \<open>Product \<open>T\<close>: eight weeks, demand 10 in the first four and 20 in the last four.\<close>

definition trend_svc :: demand_service where
  "trend_svc =
     \<lparr>weekly_demand = Some
        (map (\<lambda>(w, d). \<lparr>parent_asin = ''T'', year_week = w, wk_demand = d, avg_rating = Some 4\<rparr>)
           (zip demo_weeks [10, 10, 10, 10, 20, 20, 20, 20])),
      metadata = Map.empty, forecast_model = None, forecast_info = None\<rparr>"

definition fives :: "real list" where
  "fives = [5, 5, 5, 5, 5, 5, 5, 5, 5, 5]"

section \<open>Recommendation service: values and price parsing\<close>

text \<open>
  The values found in catalog rows and passed to \<open>_parse_price\<close>: Python's
  \<open>None\<close>, \<open>bool\<close>, unbounded \<open>int\<close>, \<open>float\<close>, \<open>str\<close>, \<open>list\<close> and \<open>dict\<close>.
  Strings are sequences of code points below 256.
\<close>

datatype json =
    JNull
  | JBool bool
  | JInt int
  | JFloat real
  | JStr string
  | JList "json list"
  | JObj "(string \<times> json) list"

fun truthy :: "json \<Rightarrow> bool" where
  "truthy JNull = False"
| "truthy (JBool b) = b"
| "truthy (JInt n) = (n \<noteq> 0)"
| "truthy (JFloat x) = (x \<noteq> 0)"
| "truthy (JStr s) = (s \<noteq> [])"
| "truthy (JList xs) = (xs \<noteq> [])"
| "truthy (JObj kvs) = (kvs \<noteq> [])"

text \<open>\<open>d.get(key, default)\<close> and Python's \<open>a or b\<close>.\<close>

definition dict_get :: "(string \<times> json) list \<Rightarrow> string \<Rightarrow> json \<Rightarrow> json" where
  "dict_get d k dflt = (case map_of d k of None \<Rightarrow> dflt | Some v \<Rightarrow> v)"

definition py_or :: "json \<Rightarrow> json \<Rightarrow> json" where
  "py_or a b = (if truthy a then a else b)"

text \<open>
  \<open>xs[start:stop]\<close> with Python's treatment of negative and out-of-range bounds.
\<close>

definition slice_index :: "nat \<Rightarrow> int \<Rightarrow> nat" where
  "slice_index len k = (if k < 0 then nat (int len + k) else min (nat k) len)"

definition py_slice :: "'a list \<Rightarrow> int \<Rightarrow> int \<Rightarrow> 'a list" where
  "py_slice xs start stop =
     (let a = slice_index (length xs) start; b = slice_index (length xs) stop
      in take (b - a) (drop a xs))"

text \<open>
  \<open>str.strip()\<close> removes the characters for which \<open>str.isspace\<close> holds; below 256
  these are the code points 9--13, 28--32, 133 and 160.
\<close>

definition py_isspace :: "char \<Rightarrow> bool" where
  "py_isspace c =
     (let n = (of_char c :: nat)
      in (9 \<le> n \<and> n \<le> 13) \<or> (28 \<le> n \<and> n \<le> 32) \<or> n = 133 \<or> n = 160)"

definition strip :: "string \<Rightarrow> string" where
  "strip s = rev (dropWhile py_isspace (rev (dropWhile py_isspace s)))"

text \<open>
  \<open>float(n)\<close> of an \<open>int\<close> raises \<open>OverflowError\<close> when \<open>n\<close> rounds to a magnitude
  of \<open>2 ^ 1024\<close> or more. \<open>float(s)\<close> of a string is the interpreter's parser; it is a
  parameter of the model, \<open>None\<close> where it raises \<open>ValueError\<close>.
\<close>

type_synonym float_parser = "string \<Rightarrow> real option"

definition float_of_int :: "int \<Rightarrow> py_error + real" where
  "float_of_int n =
     (if 2 ^ 1024 - 2 ^ 970 \<le> \<bar>n\<bar> then Inl OverflowError else Inr (real_of_int n))"

fun parse_price :: "float_parser \<Rightarrow> json \<Rightarrow> py_error + real option" where
  "parse_price fl JNull = Inr None"
| "parse_price fl (JBool b) = Inr (Some (if b then 1 else 0))"
| "parse_price fl (JInt n) =
     (case float_of_int n of Inl e \<Rightarrow> Inl e | Inr x \<Rightarrow> Inr (Some x))"
| "parse_price fl (JFloat x) = Inr (Some x)"
| "parse_price fl (JStr s) =
     (let cleaned = strip (filter (\<lambda>c. c \<noteq> CHR '','') (filter (\<lambda>c. c \<noteq> CHR ''$'') s))
      in if cleaned = [] then Inr None else Inr (fl cleaned))"
| "parse_price fl (JList xs) = Inr None"
| "parse_price fl (JObj kvs) = Inr None"

section \<open>Recommendation service: catalog and enrichment\<close>

text \<open>
  The display attributes of a product. The free-text description (built with \<open>str()\<close>
  of arbitrary values) takes no part in any property below and is left out.
\<close>

record details =
  d_asin :: string
  d_title :: json
  d_image_url :: json
  d_price :: "real option"
  d_rating :: json
  d_rating_count :: json
  d_store :: json
  d_categories :: "json list"

text \<open>A raw candidate, and an item of a returned list.\<close>

record candidate =
  c_asin :: string
  c_similarity :: real
  c_method :: string

record rec_item =
  asin :: string
  similarity :: "real option"
  score :: "real option"
  rec_method :: string
  title :: json
  image_url :: json
  price :: "real option"
  rating :: json
  rating_count :: json
  store :: json
  categories :: "json list"

type_synonym catalog = "string \<rightharpoonup> (string \<times> json) list"

text \<open>The first element of a non-empty list if it is a string, else \<open>None\<close>.\<close>

definition first_str :: "json \<Rightarrow> json \<Rightarrow> json" where
  "first_str v keep =
     (case v of
        JList (x # xs) \<Rightarrow> (case x of JStr u \<Rightarrow> JStr u | _ \<Rightarrow> JNull)
      | _ \<Rightarrow> keep)"

definition resolve_image :: "(string \<times> json) list \<Rightarrow> json" where
  "resolve_image data =
     (let u1 = first_str (dict_get data ''imageURLHighRes'' (JList [])) JNull;
          u2 = (if \<not> truthy u1
                then first_str (dict_get data ''imageURL'' (JList [])) u1 else u1)
      in if \<not> truthy u2 then
           (case dict_get data ''images'' (JList []) of
              JList (first_image # rest) \<Rightarrow>
                (case first_image of
                   JObj fi \<Rightarrow>
                     py_or (dict_get fi ''hi_res'' JNull)
                       (py_or (dict_get fi ''large'' JNull) (dict_get fi ''thumb'' JNull))
                 | JStr u \<Rightarrow> JStr u
                 | _ \<Rightarrow> u2)
            | _ \<Rightarrow> u2)
         else u2)"

definition get_product_details :: "float_parser \<Rightarrow> catalog \<Rightarrow> string \<Rightarrow> py_error + details" where
  "get_product_details fl md a =
     (case md a of
        None \<Rightarrow>
          Inr \<lparr>d_asin = a, d_title = JStr (''Product '' @ a), d_image_url = JNull,
               d_price = None, d_rating = JNull, d_rating_count = JNull, d_store = JNull,
               d_categories = []\<rparr>
      | Some data \<Rightarrow>
          (if data = [] then
             Inr \<lparr>d_asin = a, d_title = JStr (''Product '' @ a), d_image_url = JNull,
                  d_price = None, d_rating = JNull, d_rating_count = JNull,
                  d_store = JNull, d_categories = []\<rparr>
           else
             (case parse_price fl (dict_get data ''price'' JNull) of
                Inl e \<Rightarrow> Inl e
              | Inr p \<Rightarrow>
                  Inr \<lparr>d_asin = a,
                       d_title = dict_get data ''title'' (JStr (''Product '' @ a)),
                       d_image_url = resolve_image data,
                       d_price = p,
                       d_rating = dict_get data ''average_rating'' JNull,
                       d_rating_count = dict_get data ''rating_number'' JNull,
                       d_store = dict_get data ''store'' JNull,
                       d_categories =
                         (case dict_get data ''categories'' (JList []) of
                            JList cs \<Rightarrow> take 3 cs | _ \<Rightarrow> [])\<rparr>)))"

text \<open>
  \<open>_enrich_recommendations\<close>: candidates whose details carry no truthy image reference
  are skipped. An exception raised while resolving a candidate ends the loop.
\<close>

fun enrich_recommendations ::
  "float_parser \<Rightarrow> catalog \<Rightarrow> candidate list \<Rightarrow> py_error + rec_item list" where
  "enrich_recommendations fl md [] = Inr []"
| "enrich_recommendations fl md (c # cs) =
     (case get_product_details fl md (c_asin c) of
        Inl e \<Rightarrow> Inl e
      | Inr d \<Rightarrow>
          (case enrich_recommendations fl md cs of
             Inl e \<Rightarrow> Inl e
           | Inr rest \<Rightarrow>
               (if \<not> truthy (d_image_url d) then Inr rest
                else Inr (\<lparr>asin = c_asin c, similarity = Some (c_similarity c),
                           score = None, rec_method = c_method c,
                           title = d_title d, image_url = d_image_url d,
                           price = d_price d, rating = d_rating d,
                           rating_count = d_rating_count d, store = d_store d,
                           categories = d_categories d\<rparr> # rest))))"

section \<open>Recommendation service: the three recommenders\<close>

record id_mappings =
  product_to_idx :: "string \<rightharpoonup> nat"
  idx_to_product :: "string \<rightharpoonup> string"
  cb_product_to_idx :: "string \<rightharpoonup> nat"
  cb_idx_to_product :: "string \<rightharpoonup> string"

text \<open>
  The fitted nearest-neighbour index is an external artifact:
  \<open>kneighbors(query, n_neighbors)\<close> yields the neighbours as pairs of distance and row
  index, or raises.
\<close>

type_synonym knn = "real list \<Rightarrow> int \<Rightarrow> py_error + (real \<times> nat) list"

record recommendation_service =
  knn_model :: "knn option"
  item_user_matrix :: "real list list option"
  tfidf_matrix :: "real list list option"
  mappings :: "id_mappings option"
  product_metadata :: catalog

definition rs_is_ready :: "recommendation_service \<Rightarrow> bool" where
  "rs_is_ready svc =
     (knn_model svc \<noteq> None \<and> item_user_matrix svc \<noteq> None \<and> mappings svc \<noteq> None)"

definition matrix_row :: "real list list \<Rightarrow> nat \<Rightarrow> py_error + real list" where
  "matrix_row m i = (if i < length m then Inr (m ! i) else Inl IndexError)"

text \<open>\<open>idx_to_product.get(str(idx), "")\<close>: the keys are the decimal strings.\<close>

definition product_of_idx :: "(string \<rightharpoonup> string) \<Rightarrow> nat \<Rightarrow> string" where
  "product_of_idx m i = (case m (show_nat i) of None \<Rightarrow> [] | Some p \<Rightarrow> p)"

definition get_collaborative_recommendations ::
  "float_parser \<Rightarrow> recommendation_service \<Rightarrow> string \<Rightarrow> int \<Rightarrow> py_error + rec_item list" where
  "get_collaborative_recommendations fl svc product_asin n =
     (case knn_model svc of
        None \<Rightarrow> Inr []
      | Some knn \<Rightarrow>
     (case item_user_matrix svc of
        None \<Rightarrow> Inr []
      | Some m \<Rightarrow>
     (case mappings svc of
        None \<Rightarrow> Inr []
      | Some mp \<Rightarrow>
     (case product_to_idx mp product_asin of
        None \<Rightarrow> Inr []
      | Some product_idx \<Rightarrow>
     (case matrix_row m product_idx of
        Inl e \<Rightarrow> Inl e
      | Inr q \<Rightarrow>
     (case knn q (n + 1) of
        Inl e \<Rightarrow> Inl e
      | Inr neighbours \<Rightarrow>
          enrich_recommendations fl (product_metadata svc)
            (map (\<lambda>(d, idx).
                    \<lparr>c_asin = product_of_idx (idx_to_product mp) idx,
                     c_similarity = py_round (1 - d) 3,
                     c_method = ''collaborative''\<rparr>)
               (drop 1 neighbours))))))))"

text \<open>
  \<open>sklearn.metrics.pairwise.cosine_similarity\<close> of one row against a matrix: both sides
  are scaled to unit length (a zero row stays zero) and multiplied.
\<close>

definition dot :: "real list \<Rightarrow> real list \<Rightarrow> real" where
  "dot u v = sum_list (map2 (*) u v)"

definition l2_normalize :: "real list \<Rightarrow> real list" where
  "l2_normalize u = (let n = sqrt (dot u u) in if n = 0 then u else map (\<lambda>x. x / n) u)"

definition cosine_similarity :: "real list \<Rightarrow> real list list \<Rightarrow> real list" where
  "cosine_similarity x ys = map (\<lambda>y. dot (l2_normalize x) (l2_normalize y)) ys"

text \<open>
  \<open>argsort\<close>: the indices in ascending order of their values. Equal values keep their
  index order here (numpy's sort does so on short arrays and promises nothing on long
  ones).
\<close>

definition argsort :: "real list \<Rightarrow> nat list" where
  "argsort xs = sort_key (\<lambda>i. xs ! i) [0..<length xs]"

definition get_content_recommendations ::
  "float_parser \<Rightarrow> recommendation_service \<Rightarrow> string \<Rightarrow> int \<Rightarrow> py_error + rec_item list" where
  "get_content_recommendations fl svc product_asin n =
     (case tfidf_matrix svc of
        None \<Rightarrow> Inr []
      | Some t \<Rightarrow>
     (case mappings svc of
        None \<Rightarrow> Inr []
      | Some mp \<Rightarrow>
     (case cb_product_to_idx mp product_asin of
        None \<Rightarrow> Inr []
      | Some idx \<Rightarrow>
     (case matrix_row t idx of
        Inl e \<Rightarrow> Inl e
      | Inr q \<Rightarrow>
          (let similarities = cosine_similarity q t;
               similar_indices = py_slice (rev (argsort similarities)) 1 (n + 1)
           in enrich_recommendations fl (product_metadata svc)
                (map (\<lambda>i. \<lparr>c_asin = product_of_idx (cb_idx_to_product mp) i,
                           c_similarity = py_round (similarities ! i) 3,
                           c_method = ''content''\<rparr>)
                   similar_indices))))))"

subsection \<open>Hybrid fusion\<close>

text \<open>
  A Python \<open>dict\<close> keeps its keys in insertion order: assigning to a present key
  replaces the value in place, a new key goes to the end.
\<close>

fun dict_set :: "('k \<times> 'v) list \<Rightarrow> 'k \<Rightarrow> 'v \<Rightarrow> ('k \<times> 'v) list" where
  "dict_set [] k v = [(k, v)]"
| "dict_set ((k', v') # d) k v =
     (if k' = k then (k, v) # d else (k', v') # dict_set d k v)"

text \<open>\<open>rec.get("similarity", 0) or 0\<close>.\<close>

definition sim_or_0 :: "rec_item \<Rightarrow> real" where
  "sim_or_0 r = (case similarity r of None \<Rightarrow> 0 | Some x \<Rightarrow> x)"

type_synonym fusion = "(string \<times> real) list \<times> (string \<times> rec_item) list"

definition cf_pass :: "real \<Rightarrow> rec_item list \<Rightarrow> fusion" where
  "cf_pass cf_weight cf_recs =
     fold (\<lambda>r (scores, product_data).
             (dict_set scores (asin r) (sim_or_0 r * cf_weight),
              dict_set product_data (asin r) r))
       cf_recs ([], [])"

definition cb_pass :: "real \<Rightarrow> rec_item list \<Rightarrow> fusion \<Rightarrow> fusion" where
  "cb_pass cb_weight cb_recs start =
     fold (\<lambda>r (scores, product_data).
             (case map_of scores (asin r) of
                Some v \<Rightarrow>
                  (dict_set scores (asin r) (v + sim_or_0 r * cb_weight), product_data)
              | None \<Rightarrow>
                  (dict_set scores (asin r) (sim_or_0 r * cb_weight),
                   dict_set product_data (asin r) r)))
       cb_recs start"

definition hybrid_scores :: "real \<Rightarrow> rec_item list \<Rightarrow> rec_item list \<Rightarrow> fusion" where
  "hybrid_scores cf_weight cf_recs cb_recs =
     cb_pass (1 - cf_weight) cb_recs (cf_pass cf_weight cf_recs)"

text \<open>\<open>sorted(scores.items(), key=..., reverse=True)\<close>: descending and stable.\<close>

definition sorted_desc :: "(string \<times> real) list \<Rightarrow> (string \<times> real) list" where
  "sorted_desc items = sort_key (\<lambda>x. - snd x) items"

fun hybrid_results ::
  "float_parser \<Rightarrow> (string \<times> rec_item) list \<Rightarrow> (string \<times> real) list
     \<Rightarrow> py_error + rec_item list" where
  "hybrid_results fl pd [] = Inr []"
| "hybrid_results fl pd ((a, sc) # rest) =
     (case map_of pd a of
        None \<Rightarrow> hybrid_results fl pd rest
      | Some data \<Rightarrow>
          (if \<not> truthy (image_url data) then hybrid_results fl pd rest
           else
             (case parse_price fl (case price data of None \<Rightarrow> JNull | Some x \<Rightarrow> JFloat x) of
                Inl e \<Rightarrow> Inl e
              | Inr p \<Rightarrow>
                  (case hybrid_results fl pd rest of
                     Inl e \<Rightarrow> Inl e
                   | Inr rs \<Rightarrow>
                       Inr (\<lparr>asin = a, similarity = None, score = Some (py_round sc 3),
                             rec_method = ''hybrid'', title = title data,
                             image_url = image_url data, price = p, rating = rating data,
                             rating_count = rating_count data, store = store data,
                             categories = categories data\<rparr> # rs)))))"

definition get_hybrid_recommendations ::
  "float_parser \<Rightarrow> recommendation_service \<Rightarrow> string \<Rightarrow> int \<Rightarrow> real
     \<Rightarrow> py_error + rec_item list" where
  "get_hybrid_recommendations fl svc product_asin n cf_weight =
     (case get_collaborative_recommendations fl svc product_asin (n * 2) of
        Inl e \<Rightarrow> Inl e
      | Inr cf_recs \<Rightarrow>
     (case get_content_recommendations fl svc product_asin (n * 2) of
        Inl e \<Rightarrow> Inl e
      | Inr cb_recs \<Rightarrow>
          (if cf_recs = [] \<and> cb_recs = [] then Inr []
           else if cf_recs = [] then Inr (py_slice cb_recs 0 n)
           else if cb_recs = [] then Inr (py_slice cf_recs 0 n)
           else
             (let (scores, product_data) = hybrid_scores cf_weight cf_recs cb_recs
              in hybrid_results fl product_data (py_slice (sorted_desc scores) 0 n)))))"

subsection \<open>Notions used to state the properties\<close>

text \<open>A product is displayable when its details resolve to a truthy image reference.\<close>

definition displayable :: "float_parser \<Rightarrow> catalog \<Rightarrow> string \<Rightarrow> bool" where
  "displayable fl md a =
     (case get_product_details fl md a of Inl e \<Rightarrow> False | Inr d \<Rightarrow> truthy (d_image_url d))"

text \<open>The value an item is ranked by: its combined score, else its similarity.\<close>

definition rank_value :: "rec_item \<Rightarrow> real" where
  "rank_value r = (case score r of Some x \<Rightarrow> x | None \<Rightarrow> sim_or_0 r)"

definition descending :: "real list \<Rightarrow> bool" where
  "descending xs = sorted_wrt (\<lambda>x y. y \<le> x) xs"

text \<open>
  The contract of the neighbour index the collaborative ranking relies on: neighbours
  come by ascending distance.
\<close>

definition ascending_distances :: "recommendation_service \<Rightarrow> bool" where
  "ascending_distances svc =
     (\<forall>knn q k nb. knn_model svc = Some knn \<and> knn q k = Inr nb \<longrightarrow> sorted (map fst nb))"

text \<open>An entry of the score map is shown when its stored item has a truthy image.\<close>

definition shown :: "(string \<times> rec_item) list \<Rightarrow> string \<times> real \<Rightarrow> bool" where
  "shown pd it = (case map_of pd (fst it) of None \<Rightarrow> False | Some d \<Rightarrow> truthy (image_url d))"

text \<open>The bodies of the two scoring loops.\<close>

definition cf_step :: "real \<Rightarrow> rec_item \<Rightarrow> fusion \<Rightarrow> fusion" where
  "cf_step w = (\<lambda>r (scores, product_data).
             (dict_set scores (asin r) (sim_or_0 r * w),
              dict_set product_data (asin r) r))"

definition cb_step :: "real \<Rightarrow> rec_item \<Rightarrow> fusion \<Rightarrow> fusion" where
  "cb_step w = (\<lambda>r (scores, product_data).
             (case map_of scores (asin r) of
                Some v \<Rightarrow>
                  (dict_set scores (asin r) (v + sim_or_0 r * w), product_data)
              | None \<Rightarrow>
                  (dict_set scores (asin r) (sim_or_0 r * w),
                   dict_set product_data (asin r) r)))"

text \<open>
  A fusion state that extends a given one by entries of score 0 only, with the two
  dictionaries holding the same keys in the same order.
\<close>

definition zero_tail :: "(string \<times> real) list \<Rightarrow> (string \<times> rec_item) list \<Rightarrow> fusion \<Rightarrow> bool" where
  "zero_tail sc0 pd0 st =
     (\<exists>ex ex'. fst st = sc0 @ ex \<and> snd st = pd0 @ ex' \<and> (\<forall>e \<in> set ex. snd e = 0) \<and>
        map fst (fst st) = map fst (snd st))"

text \<open>The similarity a candidate list holds for a product, by its first entry.\<close>

definition sim_in :: "rec_item list \<Rightarrow> string \<rightharpoonup> real" where
  "sim_in recs = map_of (map (\<lambda>r. (asin r, sim_or_0 r)) recs)"

subsection \<open>A concrete recommendation service\<close>

text \<open>
  Six products in the collaborative index, of which \<open>A\<close> to \<open>D\<close> have a catalog
  row and a unit-length text vector; \<open>C\<close> has no image, \<open>E\<close> and \<open>F\<close> are absent
  from the catalog. The neighbour index answers for product \<open>A\<close>. \<open>twin_svc\<close> holds
  two products with the same text vector.
\<close>

definition demo_float :: float_parser where
  "demo_float s = (if s = ''13.99'' then Some (1399/100) else None)"

definition demo_catalog :: catalog where
  "demo_catalog =
     [''A'' \<mapsto> [(''title'', JStr ''Pan''), (''imageURLHighRes'', JList [JStr ''a.jpg'']),
                 (''price'', JStr ''$13.99'')],
      ''B'' \<mapsto> [(''title'', JStr ''Pot''), (''images'', JList [JObj [(''large'', JStr ''b.jpg'')]])],
      ''C'' \<mapsto> [(''title'', JStr ''Lid''), (''imageURL'', JList [])],
      ''D'' \<mapsto> [(''title'', JStr ''Wok''), (''imageURL'', JList [JStr ''d.jpg'']),
                 (''price'', JFloat 20)]]"

definition demo_mappings :: id_mappings where
  "demo_mappings =
     \<lparr>product_to_idx = [''A'' \<mapsto> 0, ''B'' \<mapsto> 1, ''C'' \<mapsto> 2, ''D'' \<mapsto> 3, ''E'' \<mapsto> 4, ''F'' \<mapsto> 5],
      idx_to_product = [''0'' \<mapsto> ''A'', ''1'' \<mapsto> ''B'', ''2'' \<mapsto> ''C'', ''3'' \<mapsto> ''D'',
                        ''4'' \<mapsto> ''E'', ''5'' \<mapsto> ''F''],
      cb_product_to_idx = [''A'' \<mapsto> 0, ''B'' \<mapsto> 1, ''C'' \<mapsto> 2, ''D'' \<mapsto> 3],
      cb_idx_to_product = [''0'' \<mapsto> ''A'', ''1'' \<mapsto> ''B'', ''2'' \<mapsto> ''C'', ''3'' \<mapsto> ''D'']\<rparr>"

definition demo_neighbours :: "(real \<times> nat) list" where
  "demo_neighbours = [(0, 0), (1/10, 3), (3/10, 2), (2/5, 4), (1/2, 5), (3/5, 1)]"

definition demo_knn :: knn where
  "demo_knn q k =
     (if k < 1 \<or> 6 < k then Inl ValueError else Inr (take (nat k) demo_neighbours))"

definition demo_svc :: recommendation_service where
  "demo_svc =
     \<lparr>knn_model = Some demo_knn,
      item_user_matrix = Some [[1, 1], [1, 0], [0, 1], [1, 1], [0, 1], [1, 0]],
      tfidf_matrix = Some [[1, 0], [3/5, 4/5], [0, 1], [4/5, 3/5]],
      mappings = Some demo_mappings,
      product_metadata = demo_catalog\<rparr>"

definition twin_svc :: recommendation_service where
  "twin_svc =
     \<lparr>knn_model = None, item_user_matrix = None,
      tfidf_matrix = Some [[1], [1]],
      mappings = Some
        \<lparr>product_to_idx = Map.empty, idx_to_product = Map.empty,
         cb_product_to_idx = [''A'' \<mapsto> 0, ''B'' \<mapsto> 1],
         cb_idx_to_product = [''0'' \<mapsto> ''A'', ''1'' \<mapsto> ''B'']\<rparr>,
      product_metadata = demo_catalog\<rparr>"

text \<open>The catalog items of \<open>D\<close> and \<open>B\<close> as the recommenders return them.\<close>

definition item_D :: "real \<Rightarrow> rec_item" where
  "item_D s = \<lparr>asin = ''D'', similarity = Some s, score = None, rec_method = ''content'',
         title = JStr ''Wok'', image_url = JStr ''d.jpg'', price = Some 20,
         rating = JNull, rating_count = JNull, store = JNull, categories = []\<rparr>"

definition item_B :: "real \<Rightarrow> rec_item" where
  "item_B s = \<lparr>asin = ''B'', similarity = Some s, score = None, rec_method = ''content'',
         title = JStr ''Pot'', image_url = JStr ''b.jpg'', price = None,
         rating = JNull, rating_count = JNull, store = JNull, categories = []\<rparr>"

definition hyb :: "rec_item \<Rightarrow> real \<Rightarrow> rec_item" where
  "hyb r s = r\<lparr>similarity := None, score := Some s, rec_method := ''hybrid''\<rparr>"

text \<open>Three raw candidates, the last without an image.\<close>

definition demo_cands :: "candidate list" where
  "demo_cands = [\<lparr>c_asin = ''D'', c_similarity = 4/5, c_method = ''content''\<rparr>,
                 \<lparr>c_asin = ''B'', c_similarity = 3/5, c_method = ''content''\<rparr>,
                 \<lparr>c_asin = ''C'', c_similarity = 0, c_method = ''content''\<rparr>]"

section \<open>Trend classification\<close>

lemma classify_trend_short:
  "length demands < 2 \<Longrightarrow> classify_trend demands = ''insufficient_data''"
  by (simp add: classify_trend_def Let_def)

lemma classify_trend_long:
  "2 \<le> length demands \<Longrightarrow>
   classify_trend demands =
     (if np_mean (drop (length demands div 2) demands)
           > np_mean (take (length demands div 2) demands) * (11/10) then ''increasing''
      else if np_mean (drop (length demands div 2) demands)
           < np_mean (take (length demands div 2) demands) * (9/10) then ''decreasing''
      else ''stable'')"
proof -
  assume "2 \<le> length demands"
  then have "0 < length demands div 2" by simp
  then show ?thesis by (simp add: classify_trend_def Let_def)
qed

lemma get_product_demand_trend:
  assumes "get_product_demand svc a = Some r"
  shows "dr_time_series r \<noteq> [] \<and> dr_trend r = classify_trend (map sp_demand (dr_time_series r))"
proof (cases "weekly_demand svc")
  case None
  with assms show ?thesis by (simp add: get_product_demand_def)
next
  case (Some wd)
  with assms have ne: "product_rows wd a \<noteq> []"
    by (auto simp: get_product_demand_def Let_def split: if_splits)
  with assms Some show ?thesis
    by (auto simp: get_product_demand_def Let_def)
qed

lemma trend_rows:
  "map wk_demand (product_rows
     (map (\<lambda>(w, d). \<lparr>parent_asin = ''T'', year_week = w, wk_demand = d, avg_rating = Some 4\<rparr>)
        (zip demo_weeks [10, 10, 10, 10, 20, 20, 20, 20])) ''T'')
   = [10, 10, 10, 10, 20, 20, 20, 20]"
  by (simp add: product_rows_def demo_weeks_def)

lemma py_round_of_int [simp]: "py_round (real_of_int k) nd = real_of_int k"
proof -
  have "real_of_int k * 10 ^ nd = real_of_int (k * 10 ^ nd)" by simp
  then have "round_half_even (real_of_int k * 10 ^ nd) = k * 10 ^ nd"
    by (simp only: round_half_even_def Let_def floor_of_int) simp
  then show ?thesis by (simp add: py_round_def)
qed

lemma get_product_demand_Some:
  "weekly_demand svc = Some wd \<Longrightarrow> product_rows wd a \<noteq> [] \<Longrightarrow>
   \<exists>r. get_product_demand svc a = Some r \<and>
       map sp_demand (dr_time_series r) = map (\<lambda>row. real_of_int (wk_demand row)) (product_rows wd a)"
  by (simp add: get_product_demand_def Let_def comp_def)

lemma trend_svc_report:
  "\<exists>r. get_product_demand trend_svc ''T'' = Some r \<and>
       map sp_demand (dr_time_series r) = [10, 10, 10, 10, 20, 20, 20, 20]"
proof -
  let ?wd = "map (\<lambda>(w, d). \<lparr>parent_asin = ''T'', year_week = w, wk_demand = d, avg_rating = Some 4\<rparr>)
        (zip demo_weeks [10, 10, 10, 10, 20, 20, 20, 20])"
  have w: "weekly_demand trend_svc = Some ?wd" by (simp add: trend_svc_def)
  have "map (\<lambda>row. real_of_int (wk_demand row)) (product_rows ?wd ''T'')
        = map real_of_int (map wk_demand (product_rows ?wd ''T''))"
    by (simp add: comp_def)
  then have d: "map (\<lambda>row. real_of_int (wk_demand row)) (product_rows ?wd ''T'')
        = [10, 10, 10, 10, 20, 20, 20, 20]"
    by (simp only: trend_rows) simp
  then have ne: "product_rows ?wd ''T'' \<noteq> []" by auto
  from get_product_demand_Some [OF w ne] show ?thesis by (simp only: d)
qed

text \<open>
  Claim C7. The trend label of a demand series is obtained by splitting the series at
  \<open>mid = len // 2\<close> and comparing the means of the halves: "increasing" when the
  second-half mean exceeds 1.1 times the first-half mean, "decreasing" when it is below
  0.9 times it, "stable" otherwise, and "insufficient_data" for fewer than two points.
  The report of \<open>get_product_demand\<close> carries this label of its own series.
\<close>

theorem trend_classification:
  "classify_trend demands =
     (if length demands < 2 then ''insufficient_data''
      else if np_mean (drop (length demands div 2) demands)
           > np_mean (take (length demands div 2) demands) * (11/10) then ''increasing''
      else if np_mean (drop (length demands div 2) demands)
           < np_mean (take (length demands div 2) demands) * (9/10) then ''decreasing''
      else ''stable'') \<and>
   (get_product_demand svc a = Some r \<longrightarrow>
      dr_time_series r \<noteq> [] \<and>
      dr_trend r = classify_trend (map sp_demand (dr_time_series r)))"
proof (intro conjI impI)
  show "classify_trend demands =
     (if length demands < 2 then ''insufficient_data''
      else if np_mean (drop (length demands div 2) demands)
           > np_mean (take (length demands div 2) demands) * (11/10) then ''increasing''
      else if np_mean (drop (length demands div 2) demands)
           < np_mean (take (length demands div 2) demands) * (9/10) then ''decreasing''
      else ''stable'')"
  proof (cases "length demands < 2")
    case True
    then show ?thesis using classify_trend_short by simp
  next
    case False
    then have "2 \<le> length demands" by simp
    from classify_trend_long [OF this] False show ?thesis by simp
  qed
next
  assume g: "get_product_demand svc a = Some r"
  from get_product_demand_trend [OF g] show "dr_time_series r \<noteq> []" by simp
  from get_product_demand_trend [OF g]
  show "dr_trend r = classify_trend (map sp_demand (dr_time_series r))" by simp
qed

theorem trend_classification_witness:
  "classify_trend [10, 10, 10, 10, 20, 20, 20, 20] = ''increasing'' \<and>
   classify_trend [10, 10, 10, 10, 10, 10, 10, 10] = ''stable'' \<and>
   classify_trend [20, 20, 10, 10] = ''decreasing'' \<and>
   classify_trend [7] = ''insufficient_data'' \<and>
   (\<exists>r. get_product_demand trend_svc ''T'' = Some r \<and> dr_trend r = ''increasing'')"
proof -
  note t = trend_classification
  have 1: "classify_trend [10, 10, 10, 10, 20, 20, 20, 20] = ''increasing''"
    using t [of "[10, 10, 10, 10, 20, 20, 20, 20]", THEN conjunct1]
    by (simp add: np_mean_def)
  have 2: "classify_trend [10, 10, 10, 10, 10, 10, 10, 10] = ''stable''"
    using t [of "[10, 10, 10, 10, 10, 10, 10, 10]", THEN conjunct1]
    by (simp add: np_mean_def)
  have 3: "classify_trend [20, 20, 10, 10] = ''decreasing''"
    using t [of "[20, 20, 10, 10]", THEN conjunct1]
    by (simp add: np_mean_def)
  have 4: "classify_trend [7] = ''insufficient_data''"
    using t [of "[7]", THEN conjunct1] by simp
  from trend_svc_report obtain r where r: "get_product_demand trend_svc ''T'' = Some r"
    and d: "map sp_demand (dr_time_series r) = [10, 10, 10, 10, 20, 20, 20, 20]" by auto
  from t [of _ trend_svc "''T''" r, THEN conjunct2] r
  have "dr_trend r = classify_trend (map sp_demand (dr_time_series r))" by simp
  with d 1 have "dr_trend r = ''increasing''" by simp
  with r 1 2 3 4 show ?thesis by blast
qed

section \<open>Rounding\<close>

lemma round_half_even_mono: "x \<le> y \<Longrightarrow> round_half_even x \<le> round_half_even y"
proof -
  assume xy: "x \<le> y"
  have fl: "\<lfloor>x\<rfloor> \<le> \<lfloor>y\<rfloor>" using xy by (rule floor_mono)
  show ?thesis
  proof (cases "\<lfloor>x\<rfloor> = \<lfloor>y\<rfloor>")
    case True
    then show ?thesis using xy unfolding round_half_even_def Let_def by auto
  next
    case False
    then have "\<lfloor>x\<rfloor> + 1 \<le> \<lfloor>y\<rfloor>" using fl by simp
    moreover have "round_half_even x \<le> \<lfloor>x\<rfloor> + 1"
      unfolding round_half_even_def Let_def by auto
    moreover have "\<lfloor>y\<rfloor> \<le> round_half_even y"
      unfolding round_half_even_def Let_def by auto
    ultimately show ?thesis by linarith
  qed
qed

lemma py_round_mono: "x \<le> y \<Longrightarrow> py_round x nd \<le> py_round y nd"
  unfolding py_round_def
  by (intro divide_right_mono) (auto intro!: round_half_even_mono mult_right_mono)

lemma py_round_ge_tenth: "1/10 \<le> x \<Longrightarrow> 1/10 \<le> py_round x 2"
proof -
  assume "1/10 \<le> x"
  then have "py_round (1/10) 2 \<le> py_round x 2" by (rule py_round_mono)
  moreover have "py_round (1/10) 2 = 1/10"
    by (simp add: py_round_def round_half_even_def)
  ultimately show ?thesis by simp
qed

section \<open>The forecast loop\<close>

lemma predict_step_ge: "1/10 \<le> predict_step model hs tr i h fs"
  unfolding predict_step_def Let_def
  by (auto simp: max_def split: option.split)

text \<open>
  Once the correction of step \<open>i > 0\<close> has fired, its value is the result of the step,
  however close to the previous emitted value it is (stated for a model with a constant
  prediction \<open>p\<close>).
\<close>

lemma correction_is_final:
  assumes "4 \<le> length h" "\<forall>f. model f = Some p" "0 < i" "fs \<noteq> []"
    and "\<bar>max (1/10) p - demand (last fs)\<bar> < 15/100"
  shows "predict_step model hs tr i h fs =
     max (1/10)
       (np_mean (drop (length h - 4) h)
        + max (hs * (1/2)) (2/10) * (if i mod 2 = 0 then 1 else - 1) * (1 + real i * (15/100))
        + tr * (real i + 1) * (15/100))"
  using assms by (simp add: predict_step_def Let_def)

lemma forecast_run_0:
  "forecast_run model demands 0 = \<lparr>historical = demands, forecasts = []\<rparr>"
  by (simp add: forecast_run_def)

lemma forecast_run_Suc:
  "forecast_run model demands (Suc k) =
     forecast_step model (historical_std_of demands) (trend_of demands)
       (forecast_run model demands k) k"
  by (simp add: forecast_run_def)

lemma forecast_step_length: "length (historical (forecast_step model hs tr st i)) \<le> 20"
  unfolding forecast_step_def Let_def by simp

lemma forecast_step_forecasts:
  "forecasts (forecast_step model hs tr st i) =
     forecasts st @ [\<lparr>week = ''Forecast-'' @ show_nat (i + 1),
        demand = py_round (predict_step model hs tr i (historical st) (forecasts st)) 2,
        is_forecast = True\<rparr>]"
  unfolding forecast_step_def Let_def by simp

lemma forecast_run_floor:
  "p \<in> set (forecasts (forecast_run model demands k)) \<Longrightarrow> 1/10 \<le> demand p"
proof (induction k arbitrary: p)
  case 0
  then show ?case by (simp add: forecast_run_def)
next
  case (Suc k)
  from Suc.prems consider "p \<in> set (forecasts (forecast_run model demands k))"
    | "demand p = py_round (predict_step model (historical_std_of demands) (trend_of demands) k
          (historical (forecast_run model demands k))
          (forecasts (forecast_run model demands k))) 2"
    by (auto simp: forecast_run_Suc forecast_step_forecasts)
  then show ?case
  proof cases
    case 1
    then show ?thesis by (rule Suc.IH)
  next
    case 2
    show ?thesis unfolding 2 by (rule py_round_ge_tenth) (rule predict_step_ge)
  qed
qed

lemma forecast_run_length_forecasts:
  "length (forecasts (forecast_run model demands k)) = k"
  by (induction k) (simp_all add: forecast_run_def forecast_step_forecasts)

lemma forecast_run_buffer: "0 < k \<Longrightarrow> length (historical (forecast_run model demands k)) \<le> 20"
  by (cases k) (simp_all add: forecast_run_Suc forecast_step_length)

lemma generate_forecast_short:
  "history_weeks svc a < 10 \<Longrightarrow> generate_forecast svc a weeks = Inr None"
  by (cases "weekly_demand svc"; cases "forecast_model svc")
     (simp_all add: generate_forecast_def history_weeks_def Let_def)

lemma generate_forecast_long:
  assumes "10 \<le> history_weeks svc a" "forecast_model svc = Some model"
    "forecast_info svc = Some info"
  shows "\<exists>r wd. weekly_demand svc = Some wd \<and>
     generate_forecast svc a weeks = Inr (Some r) \<and>
     r_forecast r = forecasts (forecast_run model
        (map (\<lambda>r. real_of_int (wk_demand r)) (product_rows wd a)) (nat weeks))"
proof -
  from assms(1) obtain wd where wd: "weekly_demand svc = Some wd"
    by (auto simp: history_weeks_def split: option.splits)
  with assms(1) have "\<not> length (product_rows wd a) < 10"
    by (simp add: history_weeks_def)
  with wd assms(2,3) show ?thesis
    by (simp add: generate_forecast_def Let_def)
qed

lemma generate_forecast_Some:
  assumes "generate_forecast svc a weeks = Inr (Some r)"
  shows "\<exists>model wd. forecast_model svc = Some model \<and> weekly_demand svc = Some wd \<and>
     10 \<le> length (product_rows wd a) \<and>
     r_forecast r = forecasts (forecast_run model
        (map (\<lambda>r. real_of_int (wk_demand r)) (product_rows wd a)) (nat weeks))"
proof (cases "weekly_demand svc")
  case None
  with assms show ?thesis by (simp add: generate_forecast_def)
next
  case wd: (Some wd)
  show ?thesis
  proof (cases "forecast_model svc")
    case None
    with assms wd show ?thesis by (simp add: generate_forecast_def)
  next
    case m: (Some model)
    show ?thesis
    proof (cases "forecast_info svc")
      case None
      with assms wd m show ?thesis
        by (simp add: generate_forecast_def Let_def split: if_splits)
    next
      case (Some info)
      with assms wd m show ?thesis
        by (auto simp: generate_forecast_def Let_def split: if_splits)
    qed
  qed
qed

lemma history_weeks_flat: "k \<le> 10 \<Longrightarrow> history_weeks (flat_svc k) ''A'' = k"
  by (simp add: history_weeks_def flat_svc_def product_rows_def demo_rows_def demo_weeks_def)

lemma flat_demands:
  "map (\<lambda>r. real_of_int (wk_demand r)) (product_rows (demo_rows ''A'' 10) ''A'') = fives"
  by (simp add: product_rows_def demo_rows_def demo_weeks_def fives_def)

text \<open>The first two iterations on the concrete service, one step at a time.\<close>

lemma flat_std: "historical_std_of fives = 0"
  by (simp add: fives_def historical_std_of_def np_std_def np_mean_def)

lemma flat_trend: "trend_of fives = 0"
  by (simp add: fives_def trend_of_def np_mean_def)

lemma fives_length: "length fives = 10"
  by (simp add: fives_def)

lemma flat_predict_0: "predict_step flat_model 0 0 0 fives [] = 469/100"
  by (simp add: fives_def predict_step_def flat_model_def Let_def)

lemma flat_step_0:
  "forecast_step flat_model 0 0 \<lparr>historical = fives, forecasts = []\<rparr> 0 =
     \<lparr>historical = fives @ [469/100],
      forecasts = [\<lparr>week = ''Forecast-1'', demand = 469/100, is_forecast = True\<rparr>]\<rparr>"
  by (simp add: forecast_step_def flat_predict_0 Let_def py_round_def round_half_even_def
      show_nat.simps fives_length)

lemma flat_predict_1:
  "predict_step flat_model 0 0 (Suc 0) (fives @ [469/100])
     [\<lparr>week = ''Forecast-1'', demand = 469/100, is_forecast = True\<rparr>] = 46925/10000"
  by (simp add: fives_def predict_step_def flat_model_def Let_def np_mean_def)

lemma flat_step_1:
  "forecast_step flat_model 0 0
     \<lparr>historical = fives @ [469/100],
      forecasts = [\<lparr>week = ''Forecast-1'', demand = 469/100, is_forecast = True\<rparr>]\<rparr> (Suc 0) =
     \<lparr>historical = fives @ [469/100, 46925/10000],
      forecasts = [\<lparr>week = ''Forecast-1'', demand = 469/100, is_forecast = True\<rparr>,
                   \<lparr>week = ''Forecast-2'', demand = 469/100, is_forecast = True\<rparr>]\<rparr>"
  by (simp add: forecast_step_def flat_predict_1 Let_def py_round_def round_half_even_def
      show_nat.simps fives_length)

lemma flat_run_1:
  "forecast_run flat_model fives (Suc 0) =
     \<lparr>historical = fives @ [469/100],
      forecasts = [\<lparr>week = ''Forecast-1'', demand = 469/100, is_forecast = True\<rparr>]\<rparr>"
  by (simp add: forecast_run_Suc forecast_run_0 flat_std flat_trend flat_step_0)

lemma flat_run_2:
  "forecast_run flat_model fives 2 =
     \<lparr>historical = fives @ [469/100, 46925/10000],
      forecasts = [\<lparr>week = ''Forecast-1'', demand = 469/100, is_forecast = True\<rparr>,
                   \<lparr>week = ''Forecast-2'', demand = 469/100, is_forecast = True\<rparr>]\<rparr>"
proof -
  have "forecast_run flat_model fives (Suc (Suc 0)) =
          forecast_step flat_model 0 0 (forecast_run flat_model fives (Suc 0)) (Suc 0)"
    by (simp only: forecast_run_Suc [of _ _ "Suc 0"] flat_std flat_trend)
  then show ?thesis by (simp only: numeral_2_eq_2 flat_run_1 flat_step_1)
qed

section \<open>Enrichment and ordering\<close>

lemma truthy_not_null: "truthy v \<Longrightarrow> v \<noteq> JNull \<and> v \<noteq> JStr []"
  by (cases v) auto

lemma enrich_Inr:
  "enrich_recommendations fl md cs = Inr rs \<Longrightarrow>
     map asin rs = map c_asin (filter (\<lambda>c. displayable fl md (c_asin c)) cs) \<and>
     map similarity rs = map (\<lambda>c. Some (c_similarity c)) (filter (\<lambda>c. displayable fl md (c_asin c)) cs) \<and>
     (\<forall>r \<in> set rs. truthy (image_url r) \<and> score r = None)"
proof (induction cs arbitrary: rs)
  case Nil
  then show ?case by simp
next
  case (Cons c cs)
  from Cons.prems obtain d rest where d: "get_product_details fl md (c_asin c) = Inr d"
    and rest: "enrich_recommendations fl md cs = Inr rest"
    by (auto split: sum.splits)
  note ih = Cons.IH [OF rest]
  show ?case
  proof (cases "truthy (d_image_url d)")
    case True
    with Cons.prems d rest ih show ?thesis
      by (auto simp: displayable_def)
  next
    case False
    with Cons.prems d rest ih show ?thesis
      by (auto simp: displayable_def)
  qed
qed

lemma descending_filter: "descending (map f xs) \<Longrightarrow> descending (map f (filter P xs))"
  unfolding descending_def by (induction xs) (auto simp: sorted_wrt_map)

lemma descending_take: "descending xs \<Longrightarrow> descending (take n xs)"
  unfolding descending_def by (rule sorted_wrt_take)

lemma descending_drop: "descending xs \<Longrightarrow> descending (drop n xs)"
  unfolding descending_def by (rule sorted_wrt_drop)

lemma descending_slice: "descending xs \<Longrightarrow> descending (py_slice xs i j)"
  unfolding py_slice_def Let_def by (intro descending_take descending_drop)

lemma descending_rev: "sorted xs \<Longrightarrow> descending (rev xs)"
  unfolding descending_def by (simp add: sorted_wrt_rev)

lemma descending_map_mono: "descending xs \<Longrightarrow> mono f \<Longrightarrow> descending (map f xs)"
  unfolding descending_def by (induction xs) (auto simp: mono_def)

lemma py_slice_map: "py_slice (map f xs) i j = map f (py_slice xs i j)"
  by (simp add: py_slice_def Let_def take_map drop_map)

lemma argsort_desc: "descending (map (\<lambda>i. xs ! i) (rev (argsort xs)))"
proof -
  have "sorted (map (\<lambda>i. xs ! i) (argsort xs))" by (simp add: argsort_def)
  then have "descending (rev (map (\<lambda>i. xs ! i) (argsort xs)))" by (rule descending_rev)
  then show ?thesis by (simp add: rev_map)
qed

lemma enrich_rank:
  assumes "enrich_recommendations fl md cs = Inr rs"
  shows "map rank_value rs = map c_similarity (filter (\<lambda>c. displayable fl md (c_asin c)) cs)"
proof -
  from enrich_Inr [OF assms]
  have s: "map similarity rs = map (\<lambda>c. Some (c_similarity c)) (filter (\<lambda>c. displayable fl md (c_asin c)) cs)"
    and n: "\<forall>r \<in> set rs. score r = None" by auto
  have "map rank_value rs = map (\<lambda>r. case similarity r of None \<Rightarrow> 0 | Some x \<Rightarrow> x) rs"
    using n by (simp add: rank_value_def sim_or_0_def)
  also have "\<dots> = map (\<lambda>v. case v of None \<Rightarrow> 0 | Some x \<Rightarrow> x) (map similarity rs)"
    by simp
  also have "\<dots> = map c_similarity (filter (\<lambda>c. displayable fl md (c_asin c)) cs)"
    unfolding s by simp
  finally show ?thesis .
qed

lemma content_sorted:
  assumes "get_content_recommendations fl svc a n = Inr rs"
  shows "descending (map rank_value rs)"
proof (cases "\<exists>t mp idx q. tfidf_matrix svc = Some t \<and> mappings svc = Some mp \<and>
    cb_product_to_idx mp a = Some idx \<and> matrix_row t idx = Inr q")
  case False
  with assms have "rs = []"
    by (auto simp: get_content_recommendations_def split: option.splits sum.splits)
  then show ?thesis by (simp add: descending_def)
next
  case True
  then obtain t mp idx q where *: "tfidf_matrix svc = Some t" "mappings svc = Some mp"
    "cb_product_to_idx mp a = Some idx" "matrix_row t idx = Inr q" by blast
  define sims where "sims = cosine_similarity q t"
  define cands where "cands = map (\<lambda>i. \<lparr>c_asin = product_of_idx (cb_idx_to_product mp) i,
       c_similarity = py_round (sims ! i) 3, c_method = ''content''\<rparr>)
       (py_slice (rev (argsort sims)) 1 (n + 1))"
  from assms * have e: "enrich_recommendations fl (product_metadata svc) cands = Inr rs"
    by (simp add: get_content_recommendations_def Let_def cands_def sims_def)
  have "map c_similarity cands = map (\<lambda>x. py_round x 3) (py_slice (map (\<lambda>i. sims ! i) (rev (argsort sims))) 1 (n + 1))"
    by (simp add: cands_def py_slice_map comp_def)
  moreover have "descending \<dots>"
    by (intro descending_map_mono descending_slice argsort_desc) (simp add: mono_def py_round_mono)
  ultimately have "descending (map c_similarity cands)" by simp
  then show ?thesis unfolding enrich_rank [OF e] by (rule descending_filter)
qed

lemma descending_antimono:
  "sorted xs \<Longrightarrow> (\<And>x y. x \<le> y \<Longrightarrow> f y \<le> f x) \<Longrightarrow> descending (map f xs)"
  unfolding descending_def by (induction xs) auto

lemma collaborative_sorted:
  assumes asc: "ascending_distances svc"
    and res: "get_collaborative_recommendations fl svc a n = Inr rs"
  shows "descending (map rank_value rs)"
proof (cases "\<exists>knn m mp i q nb. knn_model svc = Some knn \<and> item_user_matrix svc = Some m \<and>
    mappings svc = Some mp \<and> product_to_idx mp a = Some i \<and> matrix_row m i = Inr q \<and>
    knn q (n + 1) = Inr nb")
  case False
  with res have "rs = []"
    by (auto simp: get_collaborative_recommendations_def split: option.splits sum.splits)
  then show ?thesis by (simp add: descending_def)
next
  case True
  then obtain knn m mp i q nb where *: "knn_model svc = Some knn" "item_user_matrix svc = Some m"
    "mappings svc = Some mp" "product_to_idx mp a = Some i" "matrix_row m i = Inr q"
    "knn q (n + 1) = Inr nb" by blast
  define cands where "cands = map (\<lambda>(d, idx).
       \<lparr>c_asin = product_of_idx (idx_to_product mp) idx,
        c_similarity = py_round (1 - d) 3, c_method = ''collaborative''\<rparr>) (drop 1 nb)"
  from res * have e: "enrich_recommendations fl (product_metadata svc) cands = Inr rs"
    by (simp add: get_collaborative_recommendations_def cands_def)
  from asc * have "sorted (map fst nb)" unfolding ascending_distances_def by blast
  then have "sorted (map fst (drop 1 nb))" by (simp add: sorted_wrt_drop drop_map [symmetric])
  then have "descending (map (\<lambda>d. py_round (1 - d) 3) (map fst (drop 1 nb)))"
    by (rule descending_antimono) (simp add: py_round_mono)
  moreover have "map c_similarity cands = map (\<lambda>d. py_round (1 - d) 3) (map fst (drop 1 nb))"
    by (simp add: cands_def comp_def case_prod_beta)
  ultimately have "descending (map c_similarity cands)" by simp
  then show ?thesis unfolding enrich_rank [OF e] by (rule descending_filter)
qed

lemma parse_price_of_price:
  "parse_price fl (case p of None \<Rightarrow> JNull | Some x \<Rightarrow> JFloat x) = Inr p"
  by (cases p) simp_all

lemma hybrid_results_Inr:
  "hybrid_results fl pd items = Inr (map (\<lambda>(a, s). 
      (let data = the (map_of pd a) in
       \<lparr>asin = a, similarity = None, score = Some (py_round s 3),
                             rec_method = ''hybrid'', title = title data,
                             image_url = image_url data, price = price data, rating = rating data,
                             rating_count = rating_count data, store = store data,
                             categories = categories data\<rparr>)) (filter (shown pd) items))"
proof (induction items)
  case Nil
  then show ?case by simp
next
  case (Cons it items)
  obtain a s where it: "it = (a, s)" by (cases it)
  show ?case
  proof (cases "map_of pd a")
    case None
    with Cons it show ?thesis by (simp add: shown_def)
  next
    case (Some d)
    with Cons it show ?thesis by (simp add: shown_def parse_price_of_price)
  qed
qed

lemma hybrid_results_props:
  assumes "hybrid_results fl pd items = Inr rs"
  shows "map asin rs = map fst (filter (shown pd) items)"
    and "map rank_value rs = map (\<lambda>it. py_round (snd it) 3) (filter (shown pd) items)"
    and "\<forall>r \<in> set rs. truthy (image_url r)"
proof -
  from assms hybrid_results_Inr [of fl pd items]
  have rs: "rs = map (\<lambda>(a, s). 
      (let data = the (map_of pd a) in
       \<lparr>asin = a, similarity = None, score = Some (py_round s 3),
                             rec_method = ''hybrid'', title = title data,
                             image_url = image_url data, price = price data, rating = rating data,
                             rating_count = rating_count data, store = store data,
                             categories = categories data\<rparr>)) (filter (shown pd) items)" by simp
  show "map asin rs = map fst (filter (shown pd) items)"
    unfolding rs by (simp add: comp_def case_prod_beta Let_def)
  show "map rank_value rs = map (\<lambda>it. py_round (snd it) 3) (filter (shown pd) items)"
    unfolding rs by (simp add: comp_def case_prod_beta Let_def rank_value_def)
  show "\<forall>r \<in> set rs. truthy (image_url r)"
    unfolding rs by (auto simp: shown_def Let_def split: option.splits)
qed

lemma sorted_desc_descending: "descending (map snd (sorted_desc items))"
proof -
  have "sorted (map (\<lambda>x. - snd x) (sorted_desc items))"
    unfolding sorted_desc_def by simp
  then show ?thesis
    unfolding descending_def by (simp add: sorted_wrt_map sorted_map)
qed

lemma hybrid_sorted:
  assumes asc: "ascending_distances svc"
    and res: "get_hybrid_recommendations fl svc a n w = Inr rs"
  shows "descending (map rank_value rs)"
proof -
  from res obtain cf cb where cf: "get_collaborative_recommendations fl svc a (n * 2) = Inr cf"
    and cb: "get_content_recommendations fl svc a (n * 2) = Inr cb"
    by (auto simp: get_hybrid_recommendations_def split: sum.splits)
  have dcf: "descending (map rank_value cf)" using asc cf by (rule collaborative_sorted)
  have dcb: "descending (map rank_value cb)" using cb by (rule content_sorted)
  consider "cf = []" "cb = []" | "cf = []" "cb \<noteq> []" | "cf \<noteq> []" "cb = []"
    | "cf \<noteq> []" "cb \<noteq> []" by blast
  then show ?thesis
  proof cases
    case 1
    with res cf cb show ?thesis by (simp add: get_hybrid_recommendations_def descending_def)
  next
    case 2
    with res cf cb have "rs = py_slice cb 0 n" by (simp add: get_hybrid_recommendations_def)
    with dcb show ?thesis by (simp add: py_slice_map [symmetric] descending_slice)
  next
    case 3
    with res cf cb have "rs = py_slice cf 0 n" by (simp add: get_hybrid_recommendations_def)
    with dcf show ?thesis by (simp add: py_slice_map [symmetric] descending_slice)
  next
    case 4
    obtain scores pd where h: "hybrid_scores w cf cb = (scores, pd)" by (cases "hybrid_scores w cf cb")
    with 4 res cf cb have r: "hybrid_results fl pd (py_slice (sorted_desc scores) 0 n) = Inr rs"
      by (simp add: get_hybrid_recommendations_def)
    have "descending (map snd (py_slice (sorted_desc scores) 0 n))"
      unfolding py_slice_map [symmetric] by (intro descending_slice sorted_desc_descending)
    then have "descending (map (\<lambda>x. py_round x 3) (map snd (py_slice (sorted_desc scores) 0 n)))"
      by (rule descending_map_mono) (simp add: mono_def py_round_mono)
    then have "descending (map (\<lambda>it. py_round (snd it) 3) (py_slice (sorted_desc scores) 0 n))"
      by (simp add: comp_def)
    then show ?thesis unfolding hybrid_results_props(2) [OF r] by (rule descending_filter)
  qed
qed

section \<open>The recommenders on the concrete service\<close>

lemma demo_details:
  "get_product_details demo_float demo_catalog ''A'' =
     Inr \<lparr>d_asin = ''A'', d_title = JStr ''Pan'', d_image_url = JStr ''a.jpg'',
          d_price = Some (1399/100), d_rating = JNull, d_rating_count = JNull,
          d_store = JNull, d_categories = []\<rparr>"
  "get_product_details demo_float demo_catalog ''B'' =
     Inr \<lparr>d_asin = ''B'', d_title = JStr ''Pot'', d_image_url = JStr ''b.jpg'',
          d_price = None, d_rating = JNull, d_rating_count = JNull,
          d_store = JNull, d_categories = []\<rparr>"
  "get_product_details demo_float demo_catalog ''C'' =
     Inr \<lparr>d_asin = ''C'', d_title = JStr ''Lid'', d_image_url = JNull,
          d_price = None, d_rating = JNull, d_rating_count = JNull,
          d_store = JNull, d_categories = []\<rparr>"
  "get_product_details demo_float demo_catalog ''D'' =
     Inr \<lparr>d_asin = ''D'', d_title = JStr ''Wok'', d_image_url = JStr ''d.jpg'',
          d_price = Some 20, d_rating = JNull, d_rating_count = JNull,
          d_store = JNull, d_categories = []\<rparr>"
  "get_product_details demo_float demo_catalog ''E'' =
     Inr \<lparr>d_asin = ''E'', d_title = JStr ''Product E'', d_image_url = JNull,
          d_price = None, d_rating = JNull, d_rating_count = JNull,
          d_store = JNull, d_categories = []\<rparr>"
  "get_product_details demo_float demo_catalog ''F'' =
     Inr \<lparr>d_asin = ''F'', d_title = JStr ''Product F'', d_image_url = JNull,
          d_price = None, d_rating = JNull, d_rating_count = JNull,
          d_store = JNull, d_categories = []\<rparr>"
  by (simp_all add: get_product_details_def demo_catalog_def resolve_image_def first_str_def
      dict_get_def py_or_def strip_def py_isspace_def demo_float_def Let_def)

lemma demo_sims:
  "cosine_similarity [1, 0] [[1, 0], [3/5, 4/5], [0, 1], [4/5, 3/5]] = [1, 3/5, 0, 4/5]"
  by (simp add: cosine_similarity_def l2_normalize_def dot_def)

lemma argsort_length [simp]: "length (argsort xs) = length xs"
  by (simp add: argsort_def)

lemma demo_argsort: "rev (argsort [1, 3/5, 0, 4/5]) = [0, 3, 1, 2]"
  by (simp add: argsort_def upt_rec)

lemma demo_content_3:
  "get_content_recommendations demo_float demo_svc ''A'' 3 = Inr [item_D (4/5), item_B (3/5)]"
  by (simp add: get_content_recommendations_def demo_svc_def demo_mappings_def matrix_row_def
      demo_sims demo_argsort py_slice_def slice_index_def product_of_idx_def show_nat.simps
      demo_details py_round_def round_half_even_def Let_def item_D_def item_B_def)

lemma demo_collab_5:
  "get_collaborative_recommendations demo_float demo_svc ''A'' 5 =
     Inr [item_D (9/10)\<lparr>rec_method := ''collaborative''\<rparr>, item_B (2/5)\<lparr>rec_method := ''collaborative''\<rparr>]"
  by (simp add: get_collaborative_recommendations_def demo_svc_def demo_mappings_def matrix_row_def
      demo_knn_def demo_neighbours_def product_of_idx_def show_nat.simps
      demo_details py_round_def round_half_even_def Let_def item_D_def item_B_def)


lemma demo_collab_4:
  "get_collaborative_recommendations demo_float demo_svc ''A'' 4 =
     Inr [item_D (9/10)\<lparr>rec_method := ''collaborative''\<rparr>]"
  by (simp add: get_collaborative_recommendations_def demo_svc_def demo_mappings_def matrix_row_def
      demo_knn_def demo_neighbours_def product_of_idx_def show_nat.simps
      demo_details py_round_def round_half_even_def Let_def item_D_def item_B_def)

lemma demo_collab_2:
  "get_collaborative_recommendations demo_float demo_svc ''A'' 2 =
     Inr [item_D (9/10)\<lparr>rec_method := ''collaborative''\<rparr>]"
  by (simp add: get_collaborative_recommendations_def demo_svc_def demo_mappings_def matrix_row_def
      demo_knn_def demo_neighbours_def product_of_idx_def show_nat.simps
      demo_details py_round_def round_half_even_def Let_def item_D_def item_B_def)

lemma demo_content_4:
  "get_content_recommendations demo_float demo_svc ''A'' 4 = Inr [item_D (4/5), item_B (3/5)]"
  by (simp add: get_content_recommendations_def demo_svc_def demo_mappings_def matrix_row_def
      demo_sims demo_argsort py_slice_def slice_index_def product_of_idx_def show_nat.simps
      demo_details py_round_def round_half_even_def Let_def item_D_def item_B_def)

lemma demo_content_2:
  "get_content_recommendations demo_float demo_svc ''A'' 2 = Inr [item_D (4/5), item_B (3/5)]"
  by (simp add: get_content_recommendations_def demo_svc_def demo_mappings_def matrix_row_def
      demo_sims demo_argsort py_slice_def slice_index_def product_of_idx_def show_nat.simps
      demo_details py_round_def round_half_even_def Let_def item_D_def item_B_def)

lemma demo_scores:
  "hybrid_scores w [item_D (9/10)\<lparr>rec_method := ''collaborative''\<rparr>] [item_D (4/5), item_B (3/5)] =
     ([(''D'', 9/10 * w + 4/5 * (1 - w)), (''B'', 3/5 * (1 - w))],
      [(''D'', item_D (9/10)\<lparr>rec_method := ''collaborative''\<rparr>), (''B'', item_B (3/5))])"
  by (simp add: hybrid_scores_def cf_pass_def cb_pass_def sim_or_0_def item_D_def item_B_def)

lemma demo_hybrid_2:
  "get_hybrid_recommendations demo_float demo_svc ''A'' 2 (3/5) =
     Inr [hyb (item_D 0) (43/50), hyb (item_B 0) (6/25)]"
  by (simp add: get_hybrid_recommendations_def demo_collab_4 demo_content_4 demo_scores
      sorted_desc_def py_slice_def slice_index_def py_round_def round_half_even_def Let_def
      hyb_def) (simp add: item_D_def item_B_def py_round_def round_half_even_def)

lemma demo_hybrid_2_cf:
  "get_hybrid_recommendations demo_float demo_svc ''A'' 2 1 =
     Inr [hyb (item_D 0) (9/10), hyb (item_B 0) 0]"
  by (simp add: get_hybrid_recommendations_def demo_collab_4 demo_content_4 demo_scores
      sorted_desc_def py_slice_def slice_index_def py_round_def round_half_even_def Let_def
      hyb_def) (simp add: item_D_def item_B_def py_round_def round_half_even_def)

lemma demo_hybrid_1_cf:
  "get_hybrid_recommendations demo_float demo_svc ''A'' 1 1 =
     Inr [hyb (item_D 0) (9/10)]"
  by (simp add: get_hybrid_recommendations_def demo_collab_2 demo_content_2 demo_scores
      sorted_desc_def py_slice_def slice_index_def py_round_def round_half_even_def Let_def
      hyb_def) (simp add: item_D_def item_B_def py_round_def round_half_even_def)

lemma set_py_slice: "set (py_slice xs i j) \<subseteq> set xs"
  unfolding py_slice_def Let_def
  by (meson set_take_subset set_drop_subset subset_trans)

lemma collaborative_enriched:
  assumes "get_collaborative_recommendations fl svc a n = Inr rs"
  shows "\<exists>cands. enrich_recommendations fl (product_metadata svc) cands = Inr rs"
proof (cases "rs = []")
  case True
  then have "enrich_recommendations fl (product_metadata svc) [] = Inr rs" by simp
  then show ?thesis ..
next
  case False
  with assms show ?thesis
    by (auto simp: get_collaborative_recommendations_def split: option.splits sum.splits)
qed

lemma content_enriched:
  assumes "get_content_recommendations fl svc a n = Inr rs"
  shows "\<exists>cands. enrich_recommendations fl (product_metadata svc) cands = Inr rs"
proof (cases "rs = []")
  case True
  then have "enrich_recommendations fl (product_metadata svc) [] = Inr rs" by simp
  then show ?thesis ..
next
  case False
  with assms show ?thesis
    by (auto simp: get_content_recommendations_def Let_def split: option.splits sum.splits)
qed

lemma hybrid_images:
  assumes res: "get_hybrid_recommendations fl svc a n w = Inr rs"
  shows "\<forall>r \<in> set rs. truthy (image_url r)"
proof -
  from res obtain cf cb where cf: "get_collaborative_recommendations fl svc a (n * 2) = Inr cf"
    and cb: "get_content_recommendations fl svc a (n * 2) = Inr cb"
    by (auto simp: get_hybrid_recommendations_def split: sum.splits)
  from collaborative_enriched [OF cf] enrich_Inr
  have icf: "\<forall>r \<in> set cf. truthy (image_url r)" by blast
  from content_enriched [OF cb] enrich_Inr
  have icb: "\<forall>r \<in> set cb. truthy (image_url r)" by blast
  consider "cf = []" "cb = []" | "cf = []" "cb \<noteq> []" | "cf \<noteq> []" "cb = []"
    | "cf \<noteq> []" "cb \<noteq> []" by blast
  then show ?thesis
  proof cases
    case 1
    with res cf cb show ?thesis by (simp add: get_hybrid_recommendations_def)
  next
    case 2
    with res cf cb have "rs = py_slice cb 0 n" by (simp add: get_hybrid_recommendations_def)
    with icb set_py_slice [of cb 0 n] show ?thesis by blast
  next
    case 3
    with res cf cb have "rs = py_slice cf 0 n" by (simp add: get_hybrid_recommendations_def)
    with icf set_py_slice [of cf 0 n] show ?thesis by blast
  next
    case 4
    obtain scores pd where h: "hybrid_scores w cf cb = (scores, pd)" by (cases "hybrid_scores w cf cb")
    with 4 res cf cb have r: "hybrid_results fl pd (py_slice (sorted_desc scores) 0 n) = Inr rs"
      by (simp add: get_hybrid_recommendations_def)
    then show ?thesis by (rule hybrid_results_props(3))
  qed
qed

lemma twin_sims: "cosine_similarity [1] [[1], [1]] = [1, 1]"
  by (simp add: cosine_similarity_def l2_normalize_def dot_def)

lemma twin_argsort: "rev (argsort [1, 1]) = [1, 0]"
  by (simp add: argsort_def upt_rec)

lemma demo_enrich:
  "enrich_recommendations demo_float demo_catalog demo_cands = Inr [item_D (4/5), item_B (3/5)]"
  by (simp add: demo_cands_def demo_details item_D_def item_B_def)

lemma demo_ascending: "ascending_distances demo_svc"
proof -
  have "sorted (map fst (take k demo_neighbours))" for k
  proof -
    have "sorted (map fst demo_neighbours)" by (simp add: demo_neighbours_def)
    then have "sorted (take k (map fst demo_neighbours))" by (rule sorted_wrt_take)
    then show ?thesis by (simp add: take_map)
  qed
  then show ?thesis
    by (auto simp: ascending_distances_def demo_svc_def demo_knn_def split: if_splits)
qed

section \<open>Price parsing\<close>

lemma strip_decompose:
  "\<exists>l r. s = l @ strip s @ r \<and> (\<forall>c \<in> set l. py_isspace c) \<and> (\<forall>c \<in> set r. py_isspace c)"
proof -
  define l where "l = takeWhile py_isspace s"
  define m where "m = dropWhile py_isspace s"
  define r where "r = rev (takeWhile py_isspace (rev m))"
  have s: "s = l @ m" by (simp add: l_def m_def)
  have "m = rev (takeWhile py_isspace (rev m) @ dropWhile py_isspace (rev m))"
    by (simp only: takeWhile_dropWhile_id rev_rev_ident)
  also have "\<dots> = rev (dropWhile py_isspace (rev m)) @ rev (takeWhile py_isspace (rev m))"
    by (rule rev_append)
  finally have m: "m = strip s @ r"
    unfolding strip_def r_def m_def [symmetric] .
  have "\<forall>c \<in> set l. py_isspace c" unfolding l_def by (auto dest: set_takeWhileD)
  moreover have "\<forall>c \<in> set r. py_isspace c" unfolding r_def by (auto dest: set_takeWhileD)
  ultimately show ?thesis using s m by auto
qed

lemma strip_ends:
  "strip s \<noteq> [] \<Longrightarrow> \<not> py_isspace (hd (strip s)) \<and> \<not> py_isspace (last (strip s))"
proof -
  assume ne: "strip s \<noteq> []"
  define m where "m = dropWhile py_isspace s"
  define t where "t = dropWhile py_isspace (rev m)"
  have st: "strip s = rev t" by (simp add: strip_def t_def m_def)
  with ne have tne: "t \<noteq> []" by simp
  then have a: "\<not> py_isspace (hd t)" unfolding t_def by (rule hd_dropWhile)
  from tne have mne: "m \<noteq> []" unfolding t_def by auto
  then have b: "\<not> py_isspace (hd m)" unfolding m_def by (rule hd_dropWhile)
  have "\<exists>u. rev m = u @ t" unfolding t_def by (metis takeWhile_dropWhile_id)
  then obtain u where "rev m = u @ t" ..
  then have "m = rev t @ rev u" by (metis rev_append rev_rev_ident)
  with tne have "hd m = hd (rev t)" by simp
  with b a tne show ?thesis unfolding st by (simp add: last_rev)
qed

lemma float_of_int_small: "\<bar>k\<bar> < 2 ^ 1024 - 2 ^ 970 \<Longrightarrow> float_of_int k = Inr (real_of_int k)"
  by (simp add: float_of_int_def)

section \<open>The score map of the hybrid fusion\<close>

lemma map_of_dict_set: "map_of (dict_set d k v) = (map_of d)(k \<mapsto> v)"
  by (induction d) (auto simp: fun_eq_iff)

lemma dict_set_new: "k \<notin> fst ` set d \<Longrightarrow> dict_set d k v = d @ [(k, v)]"
  by (induction d) auto

lemma dict_set_same: "map_of d k = Some v \<Longrightarrow> dict_set d k v = d"
  by (induction d) (auto split: if_splits)

lemma keys_dict_set: "fst ` set (dict_set d k v) = insert k (fst ` set d)"
  by (simp add: dom_map_of_conv_image_fst [symmetric] map_of_dict_set)

lemma distinct_dict_set: "distinct (map fst d) \<Longrightarrow> distinct (map fst (dict_set d k v))"
  by (induction d) (auto simp: keys_dict_set)

lemma sim_in_Cons: "sim_in (r # rs) a = (if a = asin r then Some (sim_or_0 r) else sim_in rs a)"
  by (simp add: sim_in_def)

lemma sim_in_None: "a \<notin> asin ` set rs \<Longrightarrow> sim_in rs a = None"
  by (induction rs) (auto simp: sim_in_def)

lemma cf_step_apply:
  "cf_step w r (sc, pd) = (dict_set sc (asin r) (sim_or_0 r * w), dict_set pd (asin r) r)"
  by (simp add: cf_step_def)

lemma cb_step_apply:
  "cb_step w r (sc, pd) =
     (case map_of sc (asin r) of
        Some v \<Rightarrow> (dict_set sc (asin r) (v + sim_or_0 r * w), pd)
      | None \<Rightarrow> (dict_set sc (asin r) (sim_or_0 r * w), dict_set pd (asin r) r))"
  by (simp add: cb_step_def)

lemma cf_scores:
  "distinct (map asin cf) \<Longrightarrow>
   map_of (fst (fold (cf_step w) cf st)) a =
     (case sim_in cf a of Some x \<Rightarrow> Some (x * w) | None \<Rightarrow> map_of (fst st) a)"
proof (induction cf arbitrary: st a)
  case Nil
  then show ?case by (simp add: sim_in_def)
next
  case (Cons r cf)
  obtain sc pd where st: "st = (sc, pd)" by (cases st)
  from Cons.prems have d: "distinct (map asin cf)" and n: "asin r \<notin> asin ` set cf" by auto
  show ?case
  proof (cases "a = asin r")
    case True
    with n have "sim_in cf a = None" by (simp add: sim_in_None)
    with True show ?thesis
      by (simp add: Cons.IH [OF d] st cf_step_apply sim_in_Cons map_of_dict_set split: option.split)
  next
    case False
    then show ?thesis
      by (simp add: Cons.IH [OF d] st cf_step_apply sim_in_Cons map_of_dict_set split: option.split)
  qed
qed

lemma cb_scores:
  "distinct (map asin cb) \<Longrightarrow>
   map_of (fst (fold (cb_step w) cb st)) a =
     (case sim_in cb a of
        Some y \<Rightarrow> (case map_of (fst st) a of Some v \<Rightarrow> Some (v + y * w) | None \<Rightarrow> Some (y * w))
      | None \<Rightarrow> map_of (fst st) a)"
proof (induction cb arbitrary: st a)
  case Nil
  then show ?case by (simp add: sim_in_def)
next
  case (Cons r cb)
  obtain sc pd where st: "st = (sc, pd)" by (cases st)
  from Cons.prems have d: "distinct (map asin cb)" and n: "asin r \<notin> asin ` set cb" by auto
  show ?case
  proof (cases "a = asin r")
    case True
    with n have "sim_in cb a = None" by (simp add: sim_in_None)
    with True show ?thesis
      by (cases "map_of sc (asin r)")
         (simp_all add: Cons.IH [OF d] st cb_step_apply sim_in_Cons map_of_dict_set split: option.split)
  next
    case False
    then show ?thesis
      by (cases "map_of sc (asin r)")
         (simp_all add: Cons.IH [OF d] st cb_step_apply sim_in_Cons map_of_dict_set split: option.split)
  qed
qed

lemma hybrid_scores_steps:
  "hybrid_scores w cf cb = fold (cb_step (1 - w)) cb (fold (cf_step w) cf ([], []))"
  by (simp add: hybrid_scores_def cb_pass_def cf_pass_def cb_step_def cf_step_def)

lemma hybrid_score_map:
  assumes "distinct (map asin cf)" "distinct (map asin cb)"
  shows "map_of (fst (hybrid_scores w cf cb)) a =
     (case sim_in cf a of
        Some x \<Rightarrow> (case sim_in cb a of Some y \<Rightarrow> Some (x * w + y * (1 - w)) | None \<Rightarrow> Some (x * w))
      | None \<Rightarrow> (case sim_in cb a of Some y \<Rightarrow> Some (y * (1 - w)) | None \<Rightarrow> None))"
  by (simp add: hybrid_scores_steps cb_scores [OF assms(2)] cf_scores [OF assms(1)]
      split: option.splits)

lemma cf_keys_distinct: "distinct (map fst (fst st)) \<Longrightarrow> distinct (map fst (fst (fold (cf_step w) cf st)))"
proof (induction cf arbitrary: st)
  case Nil
  then show ?case by simp
next
  case (Cons r cf)
  obtain sc pd where st: "st = (sc, pd)" by (cases st)
  with Cons.prems have "distinct (map fst (fst (cf_step w r st)))"
    by (simp add: cf_step_apply distinct_dict_set)
  from Cons.IH [OF this] show ?case by simp
qed

lemma cb_keys_distinct: "distinct (map fst (fst st)) \<Longrightarrow> distinct (map fst (fst (fold (cb_step w) cb st)))"
proof (induction cb arbitrary: st)
  case Nil
  then show ?case by simp
next
  case (Cons r cb)
  obtain sc pd where st: "st = (sc, pd)" by (cases st)
  with Cons.prems have "distinct (map fst (fst (cb_step w r st)))"
    by (cases "map_of sc (asin r)") (simp_all add: cb_step_apply distinct_dict_set)
  from Cons.IH [OF this] show ?case by simp
qed

lemma hybrid_scores_distinct: "distinct (map fst (fst (hybrid_scores w cf cb)))"
  unfolding hybrid_scores_steps by (intro cb_keys_distinct cf_keys_distinct) simp

lemma sorted_desc_set: "set (sorted_desc items) = set items"
  by (simp add: sorted_desc_def)

lemma hybrid_item_scores:
  assumes res: "get_hybrid_recommendations fl svc a n w = Inr rs"
    and cf: "get_collaborative_recommendations fl svc a (n * 2) = Inr cf"
    and cb: "get_content_recommendations fl svc a (n * 2) = Inr cb"
    and ne: "cf \<noteq> []" "cb \<noteq> []"
    and r: "r \<in> set rs"
  shows "\<exists>v. map_of (fst (hybrid_scores w cf cb)) (asin r) = Some v \<and> score r = Some (py_round v 3)"
proof -
  obtain scores pd where h: "hybrid_scores w cf cb = (scores, pd)" by (cases "hybrid_scores w cf cb")
  with ne res cf cb have hr: "hybrid_results fl pd (py_slice (sorted_desc scores) 0 n) = Inr rs"
    by (simp add: get_hybrid_recommendations_def)
  define items where "items = py_slice (sorted_desc scores) 0 n"
  from hr hybrid_results_Inr [of fl pd items] r
  obtain k v where kv: "(k, v) \<in> set items" and a: "asin r = k" and s: "score r = Some (py_round v 3)"
    by (auto simp: items_def Let_def)
  from kv have "(k, v) \<in> set scores"
    using set_py_slice [of "sorted_desc scores" 0 n] by (auto simp: items_def sorted_desc_set)
  moreover have "distinct (map fst scores)" using hybrid_scores_distinct [of w cf cb] h by simp
  ultimately have "map_of scores k = Some v" by simp
  with a s h show ?thesis by simp
qed

section \<open>Fusion with the whole weight on the collaborative side\<close>

lemma py_slice_prefix: "0 \<le> n \<Longrightarrow> py_slice xs 0 n = take (nat n) xs"
  by (simp add: py_slice_def slice_index_def Let_def min_def)

lemma cf_fold_lists:
  "distinct (map asin cf) \<Longrightarrow> asin ` set cf \<inter> fst ` set sc = {} \<Longrightarrow>
   asin ` set cf \<inter> fst ` set pd = {} \<Longrightarrow>
   fold (cf_step w) cf (sc, pd) =
     (sc @ map (\<lambda>r. (asin r, sim_or_0 r * w)) cf, pd @ map (\<lambda>r. (asin r, r)) cf)"
proof (induction cf arbitrary: sc pd)
  case Nil
  then show ?case by simp
next
  case (Cons r cf)
  from Cons.prems have n1: "asin r \<notin> fst ` set sc" and n2: "asin r \<notin> fst ` set pd" by auto
  have s1: "dict_set sc (asin r) (sim_or_0 r * w) = sc @ [(asin r, sim_or_0 r * w)]"
    using n1 by (rule dict_set_new)
  have s2: "dict_set pd (asin r) r = pd @ [(asin r, r)]" using n2 by (rule dict_set_new)
  from Cons.prems have d: "distinct (map asin cf)"
    and a: "asin ` set cf \<inter> fst ` set (sc @ [(asin r, sim_or_0 r * w)]) = {}"
    and b: "asin ` set cf \<inter> fst ` set (pd @ [(asin r, r)]) = {}"
    by auto
  show ?case by (simp add: cf_step_apply s1 s2 Cons.IH [OF d a b])
qed

lemma cf_pass_lists:
  "distinct (map asin cf) \<Longrightarrow>
   fold (cf_step w) cf ([], []) = (map (\<lambda>r. (asin r, sim_or_0 r * w)) cf, map (\<lambda>r. (asin r, r)) cf)"
  using cf_fold_lists [of cf "[]" "[]" w] by simp

lemma zero_tail_step:
  assumes "zero_tail sc0 pd0 st"
  shows "zero_tail sc0 pd0 (cb_step 0 r st)"
proof -
  obtain sc pd where st: "st = (sc, pd)" by (cases st)
  from assms st obtain ex ex' where sc: "sc = sc0 @ ex" and pd: "pd = pd0 @ ex'"
    and z: "\<forall>e \<in> set ex. snd e = 0" and k: "map fst sc = map fst pd"
    by (auto simp: zero_tail_def)
  show ?thesis
  proof (cases "map_of sc (asin r)")
    case (Some v)
    then have "dict_set sc (asin r) v = sc" by (rule dict_set_same)
    with Some assms st show ?thesis by (simp add: cb_step_apply)
  next
    case None
    then have n1: "asin r \<notin> fst ` set sc" by (simp add: map_of_eq_None_iff)
    moreover have "fst ` set sc = fst ` set pd"
    proof -
      have "set (map fst sc) = set (map fst pd)" using k by simp
      then show ?thesis by simp
    qed
    ultimately have n2: "asin r \<notin> fst ` set pd" by simp
    have s1: "dict_set sc (asin r) 0 = sc0 @ (ex @ [(asin r, 0)])"
      using dict_set_new [OF n1, of 0] sc by simp
    have s2: "dict_set pd (asin r) r = pd0 @ (ex' @ [(asin r, r)])"
      using dict_set_new [OF n2, of r] pd by simp
    have "zero_tail sc0 pd0 (sc0 @ (ex @ [(asin r, 0)]), pd0 @ (ex' @ [(asin r, r)]))"
      unfolding zero_tail_def fst_conv snd_conv
    proof (intro exI conjI)
      show "sc0 @ (ex @ [(asin r, 0)]) = sc0 @ (ex @ [(asin r, 0)])" ..
      show "pd0 @ (ex' @ [(asin r, r)]) = pd0 @ (ex' @ [(asin r, r)])" ..
      show "\<forall>e \<in> set (ex @ [(asin r, 0)]). snd e = 0" using z by auto
      show "map fst (sc0 @ ex @ [(asin r, 0)]) = map fst (pd0 @ ex' @ [(asin r, r)])"
        using k sc pd by simp
    qed
    with None st s1 s2 show ?thesis by (simp add: cb_step_apply)
  qed
qed

lemma zero_tail_fold: "zero_tail sc0 pd0 st \<Longrightarrow> zero_tail sc0 pd0 (fold (cb_step 0) cb st)"
  by (induction cb arbitrary: st) (simp_all add: zero_tail_step)

lemma hybrid_scores_weight_one:
  assumes "distinct (map asin cf)"
  shows "\<exists>ex ex'. hybrid_scores 1 cf cb =
       (map (\<lambda>r. (asin r, sim_or_0 r)) cf @ ex, map (\<lambda>r. (asin r, r)) cf @ ex') \<and>
       (\<forall>e \<in> set ex. snd e = 0)"
proof -
  define sc0 where "sc0 = map (\<lambda>r. (asin r, sim_or_0 r)) cf"
  define pd0 where "pd0 = map (\<lambda>r. (asin r, r)) cf"
  have st: "fold (cf_step 1) cf ([], []) = (sc0, pd0)"
    using cf_pass_lists [OF assms, of 1] by (simp add: sc0_def pd0_def)
  have "zero_tail sc0 pd0 (sc0, pd0)"
    by (simp add: zero_tail_def sc0_def pd0_def comp_def)
  then have "zero_tail sc0 pd0 (fold (cb_step 0) cb (sc0, pd0))" by (rule zero_tail_fold)
  then have "zero_tail sc0 pd0 (hybrid_scores 1 cf cb)"
    by (simp add: hybrid_scores_steps st)
  then obtain ex ex' where f: "fst (hybrid_scores 1 cf cb) = sc0 @ ex"
    and g: "snd (hybrid_scores 1 cf cb) = pd0 @ ex'" and z: "\<forall>e \<in> set ex. snd e = 0"
    unfolding zero_tail_def by blast
  from f g have "hybrid_scores 1 cf cb = (sc0 @ ex, pd0 @ ex')" by (simp add: prod_eq_iff)
  with z show ?thesis unfolding sc0_def pd0_def by blast
qed

lemma sorted_desc_id:
  assumes "descending (map snd xs)" "\<forall>e \<in> set xs. 0 \<le> snd e" "\<forall>e \<in> set ex. snd e = 0"
  shows "sorted_desc (xs @ ex) = xs @ ex"
proof -
  have a: "sorted (map (\<lambda>x. - snd x) xs)"
    using assms(1) unfolding descending_def by (simp add: sorted_wrt_map sorted_map)
  have b: "sorted (map (\<lambda>x. - snd x) ex)"
    using assms(3) by (simp add: sorted_map sorted_wrt_iff_nth_less)
  have "sorted (map (\<lambda>x. - snd x) (xs @ ex))"
    using a b assms(2,3) by (auto simp: sorted_append)
  then show ?thesis unfolding sorted_desc_def by (rule sort_key_id_if_sorted)
qed

lemma map_of_prefix: "k \<in> fst ` set xs \<Longrightarrow> map_of (xs @ ys) k = map_of xs k"
  by (simp add: map_add_dom_app_simps dom_map_of_conv_image_fst)

lemma map_of_self:
  "distinct (map asin cf) \<Longrightarrow> r \<in> set cf \<Longrightarrow> map_of (map (\<lambda>r. (asin r, r)) cf) (asin r) = Some r"
  by (induction cf) (auto simp: rev_image_eqI)


lemma hybrid_weight_one:
  assumes cf: "get_collaborative_recommendations fl svc p (n * 2) = Inr cf"
    and cb: "get_content_recommendations fl svc p (n * 2) = Inr cb"
    and n1: "1 \<le> n" and len: "nat n \<le> length cf"
    and d: "distinct (map asin cf)"
    and desc: "descending (map sim_or_0 cf)"
    and nn: "\<forall>r \<in> set cf. 0 \<le> sim_or_0 r"
  shows "\<exists>rs. get_hybrid_recommendations fl svc p n 1 = Inr rs \<and>
              map asin rs = map asin (take (nat n) cf)"
proof (cases "cb = []")
  case True
  from n1 len have ne: "cf \<noteq> []" by auto
  with True cf cb n1 show ?thesis
    by (simp add: get_hybrid_recommendations_def py_slice_prefix)
next
  case False
  from n1 len have ne: "cf \<noteq> []" by auto
  define sc0 where "sc0 = map (\<lambda>r. (asin r, sim_or_0 r)) cf"
  define pd0 where "pd0 = map (\<lambda>r. (asin r, r)) cf"
  from hybrid_scores_weight_one [OF d, of cb]
  obtain ex ex' where h: "hybrid_scores 1 cf cb = (sc0 @ ex, pd0 @ ex')"
    and z: "\<forall>e \<in> set ex. snd e = 0"
    unfolding sc0_def pd0_def by blast
  have "sorted_desc (sc0 @ ex) = sc0 @ ex"
  proof (rule sorted_desc_id)
    show "descending (map snd sc0)" using desc by (simp add: sc0_def comp_def)
    show "\<forall>e \<in> set sc0. 0 \<le> snd e" using nn by (auto simp: sc0_def)
    show "\<forall>e \<in> set ex. snd e = 0" by (rule z)
  qed
  moreover have "py_slice (sc0 @ ex) 0 n = take (nat n) sc0"
    using n1 len by (simp add: py_slice_prefix sc0_def)
  ultimately have items: "py_slice (sorted_desc (sc0 @ ex)) 0 n = take (nat n) sc0" by simp
  from collaborative_enriched [OF cf] enrich_Inr
  have img: "\<forall>r \<in> set cf. truthy (image_url r)" by blast
  have all: "filter (shown (pd0 @ ex')) (take (nat n) sc0) = take (nat n) sc0"
  proof (rule filter_True, rule ballI)
    fix e assume "e \<in> set (take (nat n) sc0)"
    then have "e \<in> set sc0" by (rule in_set_takeD)
    then obtain r where r: "r \<in> set cf" and e: "e = (asin r, sim_or_0 r)"
      by (auto simp: sc0_def)
    have "asin r \<in> fst ` set pd0" using r by (force simp: pd0_def)
    then have "map_of (pd0 @ ex') (asin r) = map_of pd0 (asin r)" by (rule map_of_prefix)
    also have "\<dots> = Some r" unfolding pd0_def using d r by (rule map_of_self)
    finally show "shown (pd0 @ ex') e" using img r e by (simp add: shown_def)
  qed
  define rs where "rs = map (\<lambda>(a, s).
      (let data = the (map_of (pd0 @ ex') a) in
       \<lparr>asin = a, similarity = None, score = Some (py_round s 3),
         rec_method = ''hybrid'', title = title data,
         image_url = image_url data, price = price data, rating = rating data,
         rating_count = rating_count data, store = store data,
         categories = categories data\<rparr>)) (take (nat n) sc0)"
  have hr: "hybrid_results fl (pd0 @ ex') (take (nat n) sc0) = Inr rs"
    unfolding rs_def using hybrid_results_Inr [of fl "pd0 @ ex'" "take (nat n) sc0"]
    by (simp only: all)
  from False ne cf cb h items hr
  have g: "get_hybrid_recommendations fl svc p n 1 = Inr rs"
    by (simp add: get_hybrid_recommendations_def)
  have "map asin rs = map fst (take (nat n) sc0)"
    using hybrid_results_props(1) [OF hr] by (simp only: all)
  also have "\<dots> = map asin (take (nat n) cf)"
    by (simp add: sc0_def take_map comp_def)
  finally show ?thesis using g by blast
qed

section \<open>Distinct product IDs\<close>

text \<open>
  The ID mappings are meant to be bijections. Where the index-to-product mapping is
  injective on the rows (and the neighbour index lists a row once), a recommender
  returns each product at most once.
\<close>

lemma distinct_py_slice: "distinct xs \<Longrightarrow> distinct (py_slice xs i j)"
  by (simp add: py_slice_def Let_def)

lemma argsort_distinct: "distinct (argsort xs)"
  by (simp add: argsort_def)

lemma argsort_set: "set (argsort xs) = {..<length xs}"
  by (auto simp: argsort_def)

lemma enrich_distinct:
  assumes "enrich_recommendations fl md cands = Inr rs" "distinct (map c_asin cands)"
  shows "distinct (map asin rs)"
proof -
  from enrich_Inr [OF assms(1)]
  have "map asin rs = map c_asin (filter (\<lambda>c. displayable fl md (c_asin c)) cands)" by blast
  with assms(2) show ?thesis by (simp add: distinct_map_filter)
qed

lemma content_distinct:
  assumes res: "get_content_recommendations fl svc a n = Inr rs"
    and inj: "\<forall>t mp. tfidf_matrix svc = Some t \<and> mappings svc = Some mp \<longrightarrow>
               inj_on (product_of_idx (cb_idx_to_product mp)) {..<length t}"
  shows "distinct (map asin rs)"
proof (cases "\<exists>t mp idx q. tfidf_matrix svc = Some t \<and> mappings svc = Some mp \<and>
    cb_product_to_idx mp a = Some idx \<and> matrix_row t idx = Inr q")
  case False
  with res have "rs = []"
    by (auto simp: get_content_recommendations_def split: option.splits sum.splits)
  then show ?thesis by simp
next
  case True
  then obtain t mp idx q where *: "tfidf_matrix svc = Some t" "mappings svc = Some mp"
    "cb_product_to_idx mp a = Some idx" "matrix_row t idx = Inr q" by blast
  define sims where "sims = cosine_similarity q t"
  define idxs where "idxs = py_slice (rev (argsort sims)) 1 (n + 1)"
  define cands where "cands = map (\<lambda>i. \<lparr>c_asin = product_of_idx (cb_idx_to_product mp) i,
       c_similarity = py_round (sims ! i) 3, c_method = ''content''\<rparr>) idxs"
  from res * have e: "enrich_recommendations fl (product_metadata svc) cands = Inr rs"
    by (simp add: get_content_recommendations_def Let_def cands_def sims_def idxs_def)
  have len: "length sims = length t" by (simp add: sims_def cosine_similarity_def)
  have d: "distinct idxs" unfolding idxs_def
    by (intro distinct_py_slice) (simp add: argsort_distinct)
  have "set idxs \<subseteq> set (rev (argsort sims))" unfolding idxs_def by (rule set_py_slice)
  then have sub: "set idxs \<subseteq> {..<length t}" by (simp add: argsort_set len)
  from inj * have "inj_on (product_of_idx (cb_idx_to_product mp)) {..<length t}" by blast
  then have "inj_on (product_of_idx (cb_idx_to_product mp)) (set idxs)"
    using sub by (rule inj_on_subset)
  with d have "distinct (map (product_of_idx (cb_idx_to_product mp)) idxs)"
    by (simp add: distinct_map)
  moreover have "map c_asin cands = map (product_of_idx (cb_idx_to_product mp)) idxs"
    by (simp add: cands_def comp_def)
  ultimately have "distinct (map c_asin cands)" by simp
  with e show ?thesis by (rule enrich_distinct)
qed

lemma collaborative_distinct:
  assumes res: "get_collaborative_recommendations fl svc a n = Inr rs"
    and inj: "\<forall>knn mp q k nb. knn_model svc = Some knn \<and> mappings svc = Some mp \<and>
               knn q k = Inr nb \<longrightarrow>
               distinct (map snd nb) \<and> inj_on (product_of_idx (idx_to_product mp)) (snd ` set nb)"
  shows "distinct (map asin rs)"
proof (cases "\<exists>knn m mp i q nb. knn_model svc = Some knn \<and> item_user_matrix svc = Some m \<and>
    mappings svc = Some mp \<and> product_to_idx mp a = Some i \<and> matrix_row m i = Inr q \<and>
    knn q (n + 1) = Inr nb")
  case False
  with res have "rs = []"
    by (auto simp: get_collaborative_recommendations_def split: option.splits sum.splits)
  then show ?thesis by simp
next
  case True
  then obtain knn m mp i q nb where *: "knn_model svc = Some knn" "item_user_matrix svc = Some m"
    "mappings svc = Some mp" "product_to_idx mp a = Some i" "matrix_row m i = Inr q"
    "knn q (n + 1) = Inr nb" by blast
  define cands where "cands = map (\<lambda>(d, idx).
       \<lparr>c_asin = product_of_idx (idx_to_product mp) idx,
        c_similarity = py_round (1 - d) 3, c_method = ''collaborative''\<rparr>) (drop 1 nb)"
  from res * have e: "enrich_recommendations fl (product_metadata svc) cands = Inr rs"
    by (simp add: get_collaborative_recommendations_def cands_def)
  from inj * have dn: "distinct (map snd nb)"
    and i: "inj_on (product_of_idx (idx_to_product mp)) (snd ` set nb)" by blast+
  from dn have d: "distinct (map snd (drop 1 nb))" by (simp add: drop_map [symmetric])
  have "snd ` set (drop 1 nb) \<subseteq> snd ` set nb" by (auto dest: in_set_dropD)
  with i have "inj_on (product_of_idx (idx_to_product mp)) (set (map snd (drop 1 nb)))"
    by (simp add: inj_on_subset)
  with d have "distinct (map (product_of_idx (idx_to_product mp)) (map snd (drop 1 nb)))"
    by (simp only: distinct_map)
  moreover have "map c_asin cands = map (product_of_idx (idx_to_product mp)) (map snd (drop 1 nb))"
    by (simp add: cands_def comp_def case_prod_beta)
  ultimately have "distinct (map c_asin cands)" by simp
  with e show ?thesis by (rule enrich_distinct)
qed

text \<open>
  In \<open>twin_svc\<close> the two products have the same similarity row, so both queries are
  answered with the same list, whatever order the sort gives to equal values.
\<close>

lemma twin_queries_agree:
  "get_content_recommendations fl twin_svc ''A'' n = get_content_recommendations fl twin_svc ''B'' n"
  by (simp add: get_content_recommendations_def twin_svc_def matrix_row_def)

section \<open>Claims about the demand service\<close>

text \<open>
  Claim C2, evaluated on the code. The claim says that a corrected prediction still
  within 0.05 of the previous emitted value is forced to the previous value plus or
  minus 0.15. In the code the forcing branch is the \<open>elif\<close> of the correction's own
  test, so it is never reached after a correction (\<open>correction_is_final\<close>). On product \<open>A\<close> (ten weeks of
  demand 5, a model predicting 4.69) step 1 corrects the prediction to 4.6925, which is
  0.0025 away from the previous value 4.69, and emits 4.69 again instead of
  4.69 - 0.15 = 4.54.
\<close>

theorem correction_not_forced:
  "predict_step flat_model (historical_std_of fives) (trend_of fives) 1
     (historical (forecast_run flat_model fives 1))
     (forecasts (forecast_run flat_model fives 1)) = 46925/10000 \<and>
   demand (last (forecasts (forecast_run flat_model fives 1))) = 469/100 \<and>
   (\<exists>r. generate_forecast (flat_svc 10) ''A'' 2 = Inr (Some r) \<and>
        map demand (r_forecast r) = [469/100, 469/100])"
proof -
  have m: "forecast_model (flat_svc 10) = Some flat_model"
    and i: "forecast_info (flat_svc 10) = Some \<lparr>mi_model_type = None, mi_mae = None\<rparr>"
    and w: "weekly_demand (flat_svc 10) = Some (demo_rows ''A'' 10)"
    by (simp_all add: flat_svc_def)
  have "10 \<le> history_weeks (flat_svc 10) ''A''" by (simp add: history_weeks_flat)
  from generate_forecast_long [OF this m i, of 2] w
  have "\<exists>r. generate_forecast (flat_svc 10) ''A'' 2 = Inr (Some r) \<and>
        r_forecast r = forecasts (forecast_run flat_model fives 2)"
    by (auto simp: flat_demands)
  then show ?thesis
    by (auto simp: flat_run_1 flat_run_2 flat_std flat_trend flat_predict_1)
qed

text \<open>
  Claim C4 as stated fails: the buffer is seeded with the whole demand series and is
  trimmed only at the end of an iteration, so step 0 of a product with 21 weeks of
  history works on 21 entries.
\<close>

theorem seed_buffer_exceeds_20:
  "\<not> length (historical (forecast_run flat_model (fives @ fives @ [5]) 0)) \<le> 20"
  by (simp add: forecast_run_0 fives_def)

text \<open>
  Claim C4, amended. After every completed forecast step the history buffer holds at
  most 20 entries (before the first step it holds the whole demand series), and every
  emitted forecast point, in the loop state and in the result of
  \<open>generate_forecast\<close>, has a demand value of at least 0.1.
\<close>

theorem forecast_buffer_and_floor:
  "(0 < k \<longrightarrow> length (historical (forecast_run model demands k)) \<le> 20) \<and>
   (\<forall>p \<in> set (forecasts (forecast_run model demands k)). 1/10 \<le> demand p) \<and>
   (generate_forecast svc a weeks = Inr (Some r) \<longrightarrow>
      (\<forall>p \<in> set (r_forecast r). 1/10 \<le> demand p))"
proof (intro conjI impI ballI)
  assume "0 < k"
  then show "length (historical (forecast_run model demands k)) \<le> 20"
    by (rule forecast_run_buffer)
next
  fix p assume "p \<in> set (forecasts (forecast_run model demands k))"
  then show "1/10 \<le> demand p" by (rule forecast_run_floor)
next
  fix p assume g: "generate_forecast svc a weeks = Inr (Some r)"
    and p: "p \<in> set (r_forecast r)"
  from generate_forecast_Some [OF g] p
  obtain m d where "p \<in> set (forecasts (forecast_run m d (nat weeks)))" by auto
  then show "1/10 \<le> demand p" by (rule forecast_run_floor)
qed

theorem forecast_buffer_and_floor_witness:
  "length (historical (forecast_run flat_model (fives @ fives @ [5]) 1)) \<le> 20 \<and>
   1/10 \<le> demand (last (forecasts (forecast_run flat_model fives 2))) \<and>
   (\<exists>r. generate_forecast (flat_svc 10) ''A'' 2 = Inr (Some r) \<and>
        r_forecast r \<noteq> [] \<and> 1/10 \<le> demand (last (r_forecast r)))"
proof -
  have m: "forecast_model (flat_svc 10) = Some flat_model"
    and i: "forecast_info (flat_svc 10) = Some \<lparr>mi_model_type = None, mi_mae = None\<rparr>"
    by (simp_all add: flat_svc_def)
  have "10 \<le> history_weeks (flat_svc 10) ''A''" by (simp add: history_weeks_flat)
  from generate_forecast_long [OF this m i, of 2]
  obtain r where r: "generate_forecast (flat_svc 10) ''A'' 2 = Inr (Some r)"
    and len: "length (r_forecast r) = 2"
    by (auto simp: forecast_run_length_forecasts)
  from len have ne: "r_forecast r \<noteq> []" by auto
  note t = forecast_buffer_and_floor
  from t [of 1 flat_model "fives @ fives @ [5]"]
  have a: "length (historical (forecast_run flat_model (fives @ fives @ [5]) 1)) \<le> 20"
    by simp
  from t [of 2 flat_model fives]
  have b: "1/10 \<le> demand (last (forecasts (forecast_run flat_model fives 2)))"
    by (simp add: flat_run_2)
  from t [of 0 flat_model fives "flat_svc 10" "''A''" 2 r] r ne
  have c: "1/10 \<le> demand (last (r_forecast r))"
    using last_in_set [OF ne] by blast
  from a b c r ne show ?thesis by blast
qed

text \<open>
  Claim C6. A product with fewer than 10 weekly records gets no forecast (the result
  is \<open>None\<close>, no error); with at least 10 records, and the model and its sidecar
  loaded, a forecast of the requested length is produced. In particular 9 weeks give
  \<open>None\<close> and 10 weeks give a forecast.
\<close>

theorem forecast_needs_ten_weeks:
  "(history_weeks svc a < 10 \<longrightarrow> generate_forecast svc a weeks = Inr None) \<and>
   (10 \<le> history_weeks svc a \<and> forecast_model svc \<noteq> None \<and> forecast_info svc \<noteq> None \<longrightarrow>
      (\<exists>r. generate_forecast svc a weeks = Inr (Some r) \<and>
           length (r_forecast r) = nat weeks))"
proof (intro conjI impI)
  assume "history_weeks svc a < 10"
  then show "generate_forecast svc a weeks = Inr None" by (rule generate_forecast_short)
next
  assume a: "10 \<le> history_weeks svc a \<and> forecast_model svc \<noteq> None \<and>
    forecast_info svc \<noteq> None"
  then obtain model info where "forecast_model svc = Some model" "forecast_info svc = Some info"
    by auto
  from generate_forecast_long [OF _ this, of a weeks] a
  show "\<exists>r. generate_forecast svc a weeks = Inr (Some r) \<and> length (r_forecast r) = nat weeks"
    by (auto simp: forecast_run_length_forecasts)
qed

theorem forecast_needs_ten_weeks_witness:
  "history_weeks (flat_svc 9) ''A'' = 9 \<and> generate_forecast (flat_svc 9) ''A'' 8 = Inr None \<and>
   history_weeks (flat_svc 10) ''A'' = 10 \<and>
   (\<exists>r. generate_forecast (flat_svc 10) ''A'' 8 = Inr (Some r) \<and> length (r_forecast r) = 8)"
proof -
  have h9: "history_weeks (flat_svc 9) ''A'' = 9" by (simp add: history_weeks_flat)
  have h10: "history_weeks (flat_svc 10) ''A'' = 10" by (simp add: history_weeks_flat)
  have m: "forecast_model (flat_svc 10) \<noteq> None \<and> forecast_info (flat_svc 10) \<noteq> None"
    by (simp add: flat_svc_def)
  from forecast_needs_ten_weeks [of "flat_svc 9" "''A''" 8] h9
  have "generate_forecast (flat_svc 9) ''A'' 8 = Inr None" by simp
  moreover from forecast_needs_ten_weeks [of "flat_svc 10" "''A''" 8] h10 m
  have "\<exists>r. generate_forecast (flat_svc 10) ''A'' 8 = Inr (Some r) \<and> length (r_forecast r) = 8"
    by simp
  ultimately show ?thesis using h9 h10 by simp
qed

section \<open>Claims about the recommendation service\<close>

text \<open>
  Claim C1, evaluated on the code. The claim says that the content recommender never
  returns the queried product, also when another product has similarity 1.0 with it.
  The code drops whatever stands at rank 0 of the descending order. With two products
  of the same text vector both similarities are 1, the reversed ascending order puts
  the other product first, and the query for \<open>A\<close> with \<open>n = 1\<close> returns \<open>A\<close>
  itself. By \<open>twin_queries_agree\<close> the queries for \<open>A\<close> and \<open>B\<close> get the same
  answer, so under any order of equal values one of the two is answered with itself.
\<close>

theorem content_returns_query_on_tie:
  "cosine_similarity [1] [[1], [1]] = [1, 1] \<and>
   get_content_recommendations demo_float twin_svc ''A'' 1 =
     Inr [\<lparr>asin = ''A'', similarity = Some 1, score = None, rec_method = ''content'',
           title = JStr ''Pan'', image_url = JStr ''a.jpg'', price = Some (1399/100),
           rating = JNull, rating_count = JNull, store = JNull, categories = []\<rparr>]"
  by (simp add: get_content_recommendations_def twin_svc_def matrix_row_def twin_sims twin_argsort
       py_slice_def slice_index_def product_of_idx_def show_nat.simps demo_details
       py_round_def round_half_even_def Let_def)

text \<open>
  Claim C8. Every item that enrichment returns has a truthy image reference (so neither
  \<open>None\<close> nor the empty string); the returned products are exactly the candidates,
  in order, whose details resolve to such a reference, the others are dropped without
  an error. The same holds for every list a recommender returns. Hence a recommender
  may return fewer than \<open>n\<close> items although \<open>n\<close> ranked candidates exist: on the
  concrete service the content query for \<open>A\<close> with \<open>n = 3\<close> ranks three candidates and
  returns two.
\<close>

theorem enrichment_drops_imageless:
  "(enrich_recommendations fl md cands = Inr rs \<longrightarrow>
      (\<forall>r \<in> set rs. truthy (image_url r) \<and> image_url r \<noteq> JNull \<and> image_url r \<noteq> JStr []) \<and>
      map asin rs = map c_asin (filter (\<lambda>c. displayable fl md (c_asin c)) cands) \<and>
      length rs \<le> length cands) \<and>
   (get_collaborative_recommendations fl svc a n = Inr rs \<longrightarrow>
      (\<forall>r \<in> set rs. truthy (image_url r))) \<and>
   (get_content_recommendations fl svc a n = Inr rs \<longrightarrow>
      (\<forall>r \<in> set rs. truthy (image_url r))) \<and>
   (get_hybrid_recommendations fl svc a n w = Inr rs \<longrightarrow>
      (\<forall>r \<in> set rs. truthy (image_url r))) \<and>
   (\<exists>short. get_content_recommendations demo_float demo_svc ''A'' 3 = Inr short \<and>
      length (py_slice (rev (argsort (cosine_similarity [1, 0]
         [[1, 0], [3/5, 4/5], [0, 1], [4/5, 3/5]]))) 1 (3 + 1)) = 3 \<and> length short < 3)"
proof (intro conjI impI)
  assume e: "enrich_recommendations fl md cands = Inr rs"
  from enrich_Inr [OF e] show "\<forall>r \<in> set rs. truthy (image_url r) \<and> image_url r \<noteq> JNull \<and> image_url r \<noteq> JStr []"
    using truthy_not_null by blast
  from enrich_Inr [OF e] show m: "map asin rs = map c_asin (filter (\<lambda>c. displayable fl md (c_asin c)) cands)"
    by blast
  have "length rs = length (map asin rs)" by simp
  also have "\<dots> \<le> length cands" unfolding m by simp
  finally show "length rs \<le> length cands" .
next
  assume "get_collaborative_recommendations fl svc a n = Inr rs"
  from collaborative_enriched [OF this] enrich_Inr
  show "\<forall>r \<in> set rs. truthy (image_url r)" by blast
next
  assume "get_content_recommendations fl svc a n = Inr rs"
  from content_enriched [OF this] enrich_Inr
  show "\<forall>r \<in> set rs. truthy (image_url r)" by blast
next
  assume "get_hybrid_recommendations fl svc a n w = Inr rs"
  then show "\<forall>r \<in> set rs. truthy (image_url r)" by (rule hybrid_images)
next
  show "\<exists>short. get_content_recommendations demo_float demo_svc ''A'' 3 = Inr short \<and>
      length (py_slice (rev (argsort (cosine_similarity [1, 0]
         [[1, 0], [3/5, 4/5], [0, 1], [4/5, 3/5]]))) 1 (3 + 1)) = 3 \<and> length short < 3"
    by (simp add: demo_content_3 demo_sims demo_argsort py_slice_def slice_index_def)
qed

theorem enrichment_drops_imageless_witness:
  "enrich_recommendations demo_float demo_catalog demo_cands = Inr [item_D (4/5), item_B (3/5)] \<and>
   truthy (image_url (item_D (4/5))) \<and> truthy (image_url (item_B (3/5))) \<and>
   map asin [item_D (4/5), item_B (3/5)] = [''D'', ''B''] \<and>
   \<not> displayable demo_float demo_catalog ''C'' \<and>
   length [item_D (4/5), item_B (3/5)] < length demo_cands \<and>
   get_collaborative_recommendations demo_float demo_svc ''A'' 4
     = Inr [item_D (9/10)\<lparr>rec_method := ''collaborative''\<rparr>] \<and>
   truthy (image_url (item_D (9/10)\<lparr>rec_method := ''collaborative''\<rparr>)) \<and>
   get_content_recommendations demo_float demo_svc ''A'' 3 = Inr [item_D (4/5), item_B (3/5)] \<and>
   get_hybrid_recommendations demo_float demo_svc ''A'' 2 (3/5)
     = Inr [hyb (item_D 0) (43/50), hyb (item_B 0) (6/25)] \<and>
   truthy (image_url (hyb (item_B 0) (6/25)))"
proof -
  note t = enrichment_drops_imageless
  have c: "\<not> displayable demo_float demo_catalog ''C''"
    by (simp add: displayable_def demo_details)
  from t [where fl = demo_float and md = demo_catalog and cands = demo_cands
      and rs = "[item_D (4/5), item_B (3/5)]"] demo_enrich
  have 1: "truthy (image_url (item_D (4/5))) \<and> truthy (image_url (item_B (3/5)))"
    by simp
  from t [where fl = demo_float and svc = demo_svc and a = "''A''" and n = 4
      and rs = "[item_D (9/10)\<lparr>rec_method := ''collaborative''\<rparr>]"]
    demo_collab_4
  have 2: "truthy (image_url (item_D (9/10)\<lparr>rec_method := ''collaborative''\<rparr>))" by simp
  from t [where fl = demo_float and svc = demo_svc and a = "''A''" and n = 2 and w = "3/5"
      and rs = "[hyb (item_D 0) (43/50), hyb (item_B 0) (6/25)]"]
    demo_hybrid_2
  have 3: "truthy (image_url (hyb (item_B 0) (6/25)))" by simp
  have 4: "map asin [item_D (4/5), item_B (3/5)] = [''D'', ''B'']"
    by (simp add: item_D_def item_B_def)
  have 5: "length [item_D (4/5), item_B (3/5)] < length demo_cands"
    by (simp add: demo_cands_def)
  from 1 2 3 4 5 c demo_enrich demo_collab_4 demo_content_3 demo_hybrid_2 show ?thesis by simp
qed

text \<open>
  Claim C9. The values by which a returned list is ranked (the similarity of a
  collaborative or content item, the combined score of a hybrid item) are in descending
  order, after enrichment has removed candidates as well. For the content recommender
  this holds outright; the collaborative ranking is the order of the neighbour index,
  which is required to list neighbours by ascending distance.
\<close>

theorem recommendations_descending:
  "(get_content_recommendations fl svc a n = Inr rs \<longrightarrow> descending (map rank_value rs)) \<and>
   (ascending_distances svc \<and> get_collaborative_recommendations fl svc a n = Inr rs \<longrightarrow>
      descending (map rank_value rs)) \<and>
   (ascending_distances svc \<and> get_hybrid_recommendations fl svc a n w = Inr rs \<longrightarrow>
      descending (map rank_value rs))"
  using content_sorted collaborative_sorted hybrid_sorted by blast

theorem recommendations_descending_witness:
  "ascending_distances demo_svc \<and>
   get_content_recommendations demo_float demo_svc ''A'' 3 = Inr [item_D (4/5), item_B (3/5)] \<and>
   map rank_value [item_D (4/5), item_B (3/5)] = [4/5, 3/5] \<and>
   descending (map rank_value [item_D (4/5), item_B (3/5)]) \<and>
   get_collaborative_recommendations demo_float demo_svc ''A'' 5 =
     Inr [item_D (9/10)\<lparr>rec_method := ''collaborative''\<rparr>, item_B (2/5)\<lparr>rec_method := ''collaborative''\<rparr>] \<and>
   descending (map rank_value
     [item_D (9/10)\<lparr>rec_method := ''collaborative''\<rparr>, item_B (2/5)\<lparr>rec_method := ''collaborative''\<rparr>]) \<and>
   get_hybrid_recommendations demo_float demo_svc ''A'' 2 (3/5)
     = Inr [hyb (item_D 0) (43/50), hyb (item_B 0) (6/25)] \<and>
   map rank_value [hyb (item_D 0) (43/50), hyb (item_B 0) (6/25)] = [43/50, 6/25] \<and>
   descending (map rank_value [hyb (item_D 0) (43/50), hyb (item_B 0) (6/25)])"
proof -
  note t = recommendations_descending
  from t [where fl = demo_float and svc = demo_svc and a = "''A''" and n = 3
      and rs = "[item_D (4/5), item_B (3/5)]"] demo_content_3
  have 1: "descending (map rank_value [item_D (4/5), item_B (3/5)])" by simp
  from t [where fl = demo_float and svc = demo_svc and a = "''A''" and n = 5 and rs =
      "[item_D (9/10)\<lparr>rec_method := ''collaborative''\<rparr>, item_B (2/5)\<lparr>rec_method := ''collaborative''\<rparr>]"]
    demo_collab_5 demo_ascending
  have 2: "descending (map rank_value
     [item_D (9/10)\<lparr>rec_method := ''collaborative''\<rparr>, item_B (2/5)\<lparr>rec_method := ''collaborative''\<rparr>])"
    by simp
  from t [where fl = demo_float and svc = demo_svc and a = "''A''" and n = 2 and w = "3/5"
      and rs = "[hyb (item_D 0) (43/50), hyb (item_B 0) (6/25)]"]
    demo_hybrid_2 demo_ascending
  have 3: "descending (map rank_value [hyb (item_D 0) (43/50), hyb (item_B 0) (6/25)])" by simp
  have 4: "map rank_value [item_D (4/5), item_B (3/5)] = [4/5, 3/5]"
    by (simp add: rank_value_def sim_or_0_def item_D_def item_B_def)
  have 5: "map rank_value [hyb (item_D 0) (43/50), hyb (item_B 0) (6/25)] = [43/50, 6/25]"
    by (simp add: rank_value_def hyb_def)
  from 1 2 3 4 5 demo_ascending demo_content_3 demo_collab_5 demo_hybrid_2 show ?thesis
    by simp
qed

text \<open>
  Claim C10 as stated fails: \<open>float(x)\<close> of an \<open>int\<close> beyond the float range raises
  \<open>OverflowError\<close>, and the numeric branch is outside the \<open>try\<close>.
\<close>

theorem parse_price_overflow: "parse_price demo_float (JInt (2 ^ 1024)) = Inl OverflowError"
  by (simp add: float_of_int_def)

text \<open>
  Claim C10, amended. For every value other than an \<open>int\<close> whose magnitude is beyond
  the float range, \<open>_parse_price\<close> returns without raising, and the result is \<open>None\<close>
  or a float: \<open>float(x)\<close> for a number (a \<open>bool\<close> counts as the integer 0 or 1), for a
  string the parse of what is left after removing every \<open>$\<close> and \<open>,\<close> and the
  surrounding whitespace (\<open>None\<close> when nothing is left or the parse fails), and
  \<open>None\<close> for \<open>None\<close> and for a list or a dict.
\<close>

theorem parse_price_total:
  assumes "\<forall>k. v = JInt k \<longrightarrow> \<bar>k\<bar> < 2 ^ 1024 - 2 ^ 970"
  shows "parse_price fl v =
     Inr (case v of
            JNull \<Rightarrow> None
          | JBool b \<Rightarrow> Some (if b then 1 else 0)
          | JInt k \<Rightarrow> Some (real_of_int k)
          | JFloat x \<Rightarrow> Some x
          | JStr s \<Rightarrow>
              (if strip (filter (\<lambda>c. c \<noteq> CHR '','') (filter (\<lambda>c. c \<noteq> CHR ''$'') s)) = []
               then None
               else fl (strip (filter (\<lambda>c. c \<noteq> CHR '','') (filter (\<lambda>c. c \<noteq> CHR ''$'') s))))
          | JList xs \<Rightarrow> None
          | JObj kvs \<Rightarrow> None)"
proof (cases v)
  case (JInt k)
  with assms have "\<bar>k\<bar> < 2 ^ 1024 - 2 ^ 970" by simp
  with JInt show ?thesis by (simp add: float_of_int_small)
qed (simp_all add: Let_def)

theorem parse_price_total_witness:
  "parse_price demo_float (JStr '' $13.99 '') = Inr (Some (1399/100)) \<and>
   parse_price demo_float (JInt 14) = Inr (Some 14) \<and>
   parse_price demo_float (JStr ''$ ,'') = Inr None \<and>
   parse_price demo_float (JStr ''n/a'') = Inr None \<and>
   parse_price demo_float (JList [JFloat 3]) = Inr None"
proof -
  note t = parse_price_total
  have "\<forall>k. JInt 14 = JInt k \<longrightarrow> \<bar>k\<bar> < 2 ^ 1024 - 2 ^ 970" by simp
  from t [of "JInt 14" demo_float, OF this]
  have 1: "parse_price demo_float (JInt 14) = Inr (Some 14)" by simp
  from t [of "JStr '' $13.99 ''" demo_float]
  have 2: "parse_price demo_float (JStr '' $13.99 '') = Inr (Some (1399/100))"
    by (simp add: strip_def py_isspace_def demo_float_def)
  from t [of "JStr ''$ ,''" demo_float]
  have 3: "parse_price demo_float (JStr ''$ ,'') = Inr None"
    by (simp add: strip_def py_isspace_def demo_float_def)
  from t [of "JStr ''n/a''" demo_float]
  have 4: "parse_price demo_float (JStr ''n/a'') = Inr None"
    by (simp add: strip_def py_isspace_def demo_float_def)
  from t [of "JList [JFloat 3]" demo_float]
  have 5: "parse_price demo_float (JList [JFloat 3]) = Inr None" by simp
  from 1 2 3 4 5 show ?thesis by simp
qed

text \<open>
  Claim C3. When both candidate lists are non-empty the fusion builds a score map. With
  product IDs distinct within each list (see \<open>collaborative_distinct\<close> and
  \<open>content_distinct\<close>), a product in both lists gets the score
  \<open>cf_weight * simCF + (1 - cf_weight) * simCB\<close>, a product only in the collaborative
  list gets \<open>simCF * cf_weight\<close> and a product only in the content list gets
  \<open>simCB * (1 - cf_weight)\<close>. Every returned hybrid item carries the score
  of its product in that map, rounded to three decimals.
\<close>

theorem hybrid_score_formula:
  assumes "distinct (map asin cf_recs)" "distinct (map asin cb_recs)"
  shows
   "(sim_in cf_recs a = Some x \<and> sim_in cb_recs a = Some y \<longrightarrow>
       map_of (fst (hybrid_scores w cf_recs cb_recs)) a = Some (w * x + (1 - w) * y)) \<and>
    (sim_in cf_recs a = Some x \<and> sim_in cb_recs a = None \<longrightarrow>
       map_of (fst (hybrid_scores w cf_recs cb_recs)) a = Some (x * w)) \<and>
    (sim_in cf_recs a = None \<and> sim_in cb_recs a = Some y \<longrightarrow>
       map_of (fst (hybrid_scores w cf_recs cb_recs)) a = Some (y * (1 - w))) \<and>
    (get_hybrid_recommendations fl svc p n w = Inr rs \<and>
     get_collaborative_recommendations fl svc p (n * 2) = Inr cf_recs \<and>
     get_content_recommendations fl svc p (n * 2) = Inr cb_recs \<and>
     cf_recs \<noteq> [] \<and> cb_recs \<noteq> [] \<longrightarrow>
       (\<forall>r \<in> set rs. \<exists>v. map_of (fst (hybrid_scores w cf_recs cb_recs)) (asin r) = Some v \<and>
                             score r = Some (py_round v 3)))"
proof (intro conjI impI ballI)
  assume "sim_in cf_recs a = Some x \<and> sim_in cb_recs a = Some y"
  then show "map_of (fst (hybrid_scores w cf_recs cb_recs)) a = Some (w * x + (1 - w) * y)"
    by (simp add: hybrid_score_map [OF assms] mult.commute)
next
  assume "sim_in cf_recs a = Some x \<and> sim_in cb_recs a = None"
  then show "map_of (fst (hybrid_scores w cf_recs cb_recs)) a = Some (x * w)"
    by (simp add: hybrid_score_map [OF assms])
next
  assume "sim_in cf_recs a = None \<and> sim_in cb_recs a = Some y"
  then show "map_of (fst (hybrid_scores w cf_recs cb_recs)) a = Some (y * (1 - w))"
    by (simp add: hybrid_score_map [OF assms])
next
  fix r
  assume h: "get_hybrid_recommendations fl svc p n w = Inr rs \<and>
     get_collaborative_recommendations fl svc p (n * 2) = Inr cf_recs \<and>
     get_content_recommendations fl svc p (n * 2) = Inr cb_recs \<and>
     cf_recs \<noteq> [] \<and> cb_recs \<noteq> []" and r: "r \<in> set rs"
  from h r show "\<exists>v. map_of (fst (hybrid_scores w cf_recs cb_recs)) (asin r) = Some v \<and>
                             score r = Some (py_round v 3)"
    by (intro hybrid_item_scores [of fl svc p n w rs cf_recs cb_recs r]) simp_all
qed

theorem hybrid_score_formula_witness:
  "map_of (fst (hybrid_scores (3/5) [item_D (9/10)] [item_D (4/5), item_B (3/5)])) ''D'' = Some (43/50) \<and>
   map_of (fst (hybrid_scores (3/5) [item_D (9/10)] [item_D (4/5), item_B (3/5)])) ''B'' = Some (6/25) \<and>
   map_of (fst (hybrid_scores (3/5) [item_D (9/10), item_B (2/5)] [item_D (4/5)])) ''B'' = Some (6/25) \<and>
   get_hybrid_recommendations demo_float demo_svc ''A'' 2 (3/5)
     = Inr [hyb (item_D 0) (43/50), hyb (item_B 0) (6/25)] \<and>
   (\<exists>v. map_of (fst (hybrid_scores (3/5) [item_D (9/10)\<lparr>rec_method := ''collaborative''\<rparr>]
              [item_D (4/5), item_B (3/5)])) ''B'' = Some v \<and>
        score (hyb (item_B 0) (6/25)) = Some (py_round v 3))"
proof -
  note t = hybrid_score_formula
  have d1: "distinct (map asin [item_D (9/10)])" "distinct (map asin [item_D (4/5), item_B (3/5)])"
    "distinct (map asin [item_D (9/10), item_B (2/5)])" "distinct (map asin [item_D (4/5)])"
    by (simp_all add: item_D_def item_B_def)
  have s: "sim_in [item_D (9/10)] ''D'' = Some (9/10)"
    "sim_in [item_D (4/5), item_B (3/5)] ''D'' = Some (4/5)"
    "sim_in [item_D (9/10)] ''B'' = None"
    "sim_in [item_D (4/5), item_B (3/5)] ''B'' = Some (3/5)"
    "sim_in [item_D (9/10), item_B (2/5)] ''B'' = Some (2/5)"
    "sim_in [item_D (4/5)] ''B'' = None"
    by (simp_all add: sim_in_def sim_or_0_def item_D_def item_B_def)
  from t [OF d1(1) d1(2), where a = "''D''" and x = "9/10" and y = "4/5" and w = "3/5"] s
  have 1: "map_of (fst (hybrid_scores (3/5) [item_D (9/10)] [item_D (4/5), item_B (3/5)])) ''D'' = Some (43/50)"
    by simp
  from t [OF d1(1) d1(2), where a = "''B''" and y = "3/5" and w = "3/5"] s
  have 2: "map_of (fst (hybrid_scores (3/5) [item_D (9/10)] [item_D (4/5), item_B (3/5)])) ''B'' = Some (6/25)"
    by simp
  from t [OF d1(3) d1(4), where a = "''B''" and x = "2/5" and w = "3/5"] s
  have 3: "map_of (fst (hybrid_scores (3/5) [item_D (9/10), item_B (2/5)] [item_D (4/5)])) ''B'' = Some (6/25)"
    by simp
  have d2: "distinct (map asin [item_D (9/10)\<lparr>rec_method := ''collaborative''\<rparr>])"
    by simp
  from t [OF d2 d1(2), where fl = demo_float and svc = demo_svc and p = "''A''" and n = 2
      and w = "3/5" and rs = "[hyb (item_D 0) (43/50), hyb (item_B 0) (6/25)]"]
    demo_hybrid_2 demo_collab_4 demo_content_4
  have 4: "\<exists>v. map_of (fst (hybrid_scores (3/5) [item_D (9/10)\<lparr>rec_method := ''collaborative''\<rparr>]
              [item_D (4/5), item_B (3/5)])) (asin (hyb (item_B 0) (6/25))) = Some v \<and>
        score (hyb (item_B 0) (6/25)) = Some (py_round v 3)"
    by simp
  have "asin (hyb (item_B 0) (6/25)) = ''B''" by (simp add: hyb_def item_B_def)
  with 4 have 5: "\<exists>v. map_of (fst (hybrid_scores (3/5) [item_D (9/10)\<lparr>rec_method := ''collaborative''\<rparr>]
              [item_D (4/5), item_B (3/5)])) ''B'' = Some v \<and>
        score (hyb (item_B 0) (6/25)) = Some (py_round v 3)"
    by simp
  from 1 2 3 5 demo_hybrid_2 show ?thesis by simp
qed

text \<open>
  Claim C5 as stated fails. The fusion keeps every candidate of both lists; with the
  whole weight on the collaborative side a content-only candidate scores 0 and fills a
  place the collaborative pool leaves free. On the concrete service the pool for
  \<open>n = 2\<close> holds one displayable product, \<open>D\<close>, the content list holds \<open>D\<close> and
  \<open>B\<close>, and the hybrid list is \<open>D, B\<close> while the collaborative list is \<open>D\<close>.
\<close>

theorem hybrid_weight_one_differs:
  "get_hybrid_recommendations demo_float demo_svc ''A'' 2 1
     = Inr [hyb (item_D 0) (9/10), hyb (item_B 0) 0] \<and>
   get_collaborative_recommendations demo_float demo_svc ''A'' 4
     = Inr [item_D (9/10)\<lparr>rec_method := ''collaborative''\<rparr>] \<and>
   get_collaborative_recommendations demo_float demo_svc ''A'' 2
     = Inr [item_D (9/10)\<lparr>rec_method := ''collaborative''\<rparr>] \<and>
   map asin [hyb (item_D 0) (9/10), hyb (item_B 0) 0] = [''D'', ''B''] \<and>
   map asin (py_slice [item_D (9/10)\<lparr>rec_method := ''collaborative''\<rparr>] 0 2) = [''D''] \<and>
   map asin [hyb (item_D 0) (9/10), hyb (item_B 0) 0]
     \<noteq> map asin (py_slice [item_D (9/10)\<lparr>rec_method := ''collaborative''\<rparr>] 0 2)"
  by (simp add: demo_hybrid_2_cf demo_collab_4 demo_collab_2 hyb_def item_D_def item_B_def
      py_slice_def slice_index_def)

text \<open>
  Claim C5, amended. For \<open>n \<ge> 1\<close> and \<open>cf_weight = 1\<close>, if the collaborative list for
  \<open>2n\<close> (the pool the fusion works on) holds at least \<open>n\<close> items, with distinct
  product IDs and descending, non-negative similarities, then the hybrid recommender
  returns exactly the product IDs of that list truncated to \<open>n\<close>, in the same order.
\<close>

theorem hybrid_weight_one_truncates:
  assumes "get_collaborative_recommendations fl svc p (n * 2) = Inr cf_recs"
    and "get_content_recommendations fl svc p (n * 2) = Inr cb_recs"
    and "1 \<le> n" and "nat n \<le> length cf_recs"
    and "distinct (map asin cf_recs)"
    and "descending (map sim_or_0 cf_recs)"
    and "\<forall>r \<in> set cf_recs. 0 \<le> sim_or_0 r"
  shows "\<exists>rs. get_hybrid_recommendations fl svc p n 1 = Inr rs \<and>
              map asin rs = map asin (py_slice cf_recs 0 n)"
proof -
  from assms(3) have "py_slice cf_recs 0 n = take (nat n) cf_recs"
    by (simp add: py_slice_prefix)
  with hybrid_weight_one [OF assms] show ?thesis by simp
qed

theorem hybrid_weight_one_truncates_witness:
  "get_collaborative_recommendations demo_float demo_svc ''A'' (1 * 2)
     = Inr [item_D (9/10)\<lparr>rec_method := ''collaborative''\<rparr>] \<and>
   get_content_recommendations demo_float demo_svc ''A'' (1 * 2)
     = Inr [item_D (4/5), item_B (3/5)] \<and>
   (\<exists>rs. get_hybrid_recommendations demo_float demo_svc ''A'' 1 1 = Inr rs \<and>
         map asin rs = [''D''])"
proof -
  let ?cf = "[item_D (9/10)\<lparr>rec_method := ''collaborative''\<rparr>]"
  have cf: "get_collaborative_recommendations demo_float demo_svc ''A'' (1 * 2) = Inr ?cf"
    by (simp add: demo_collab_2)
  have cb: "get_content_recommendations demo_float demo_svc ''A'' (1 * 2)
     = Inr [item_D (4/5), item_B (3/5)]"
    by (simp add: demo_content_2)
  have a: "(1::int) \<le> 1" "nat 1 \<le> length ?cf" "distinct (map asin ?cf)" by simp_all
  have b: "descending (map sim_or_0 ?cf)" by (simp add: descending_def)
  have c: "\<forall>r \<in> set ?cf. 0 \<le> sim_or_0 r" by (simp add: sim_or_0_def item_D_def)
  from hybrid_weight_one_truncates [OF cf cb a b c]
  have "\<exists>rs. get_hybrid_recommendations demo_float demo_svc ''A'' 1 1 = Inr rs \<and>
         map asin rs = [''D'']"
    by (simp add: py_slice_def slice_index_def item_D_def)
  with cf cb show ?thesis by blast
qed

end
